theory Spec2Isabelle
  imports Main "HOL-Library.Word"
begin

unbundle bit_operations_syntax

section \<open>Machine types\<close>

type_synonym byte = "8 word"
type_synonym uint16 = "16 word"
type_synonym uint32 = "32 word"
type_synonym uint64 = "64 word"

text \<open>
  Go's \<open>int\<close> is 64 bits wide here (the source compares an \<open>int\<close> with
  \<open>math.MaxUint32\<close>, which does not compile for a 32-bit \<open>int\<close>). It is kept as a
  64-bit word: \<open>+\<close> wraps as Go's does, and the comparisons read it signed (\<open>sint\<close>).
\<close>

type_synonym go_int = "64 word"

definition int_lt :: "go_int \<Rightarrow> go_int \<Rightarrow> bool" where
  "int_lt a b = (sint a < sint b)"

definition int_gt :: "go_int \<Rightarrow> go_int \<Rightarrow> bool" where
  "int_gt a b = (sint b < sint a)"

text \<open>Go's \<open>/\<close> on signed integers truncates towards zero.\<close>

definition int_quo :: "go_int \<Rightarrow> go_int \<Rightarrow> go_int" where
  "int_quo a b = word_of_int (sgn (sint a) * sgn (sint b) * (\<bar>sint a\<bar> div \<bar>sint b\<bar>))"

definition MaxUint32 :: go_int where
  "MaxUint32 = 4294967295"

section \<open>Configuration resolution (opts.go)\<close>

text \<open>
  The fields of \<open>config\<close> that \<open>resolveConfig\<close> reads or writes on the way to
  \<open>pageSize\<close>. The other fields are resolved independently of these.
\<close>

record config =
  valueCap :: go_int
  pageSize :: go_int
  minValueAlloc :: go_int
  checksumInterval :: go_int

text \<open>
  The environment, as \<open>resolveConfig\<close> sees it: for each variable the result of
  \<open>strconv.Atoi(os.Getenv(...))\<close>, \<open>None\<close> when the variable is unset, empty or
  not a number.
\<close>

record environ =
  VALUESTORE_VALUECAP :: "go_int option"
  VALUESTORE_PAGESIZE :: "go_int option"
  VALUESTORE_CHECKSUMINTERVAL :: "go_int option"

definition OptValueCap :: "go_int \<Rightarrow> config \<Rightarrow> config" where
  "OptValueCap bytes cfg = cfg\<lparr>valueCap := bytes\<rparr>"

definition OptPageSize :: "go_int \<Rightarrow> config \<Rightarrow> config" where
  "OptPageSize bytes cfg = cfg\<lparr>pageSize := bytes\<rparr>"

definition OptChecksumInterval :: "go_int \<Rightarrow> config \<Rightarrow> config" where
  "OptChecksumInterval bytes cfg = cfg\<lparr>checksumInterval := bytes\<rparr>"

definition envOr :: "go_int option \<Rightarrow> go_int \<Rightarrow> go_int" where
  "envOr e d = (case e of Some val \<Rightarrow> val | None \<Rightarrow> d)"

text \<open>The defaults and environment overrides, lines 183 to 224 of opts.go.\<close>

definition configDefaults :: "environ \<Rightarrow> config" where
  "configDefaults env =
     \<lparr> valueCap = envOr (VALUESTORE_VALUECAP env) (4 * 1024 * 1024),
       pageSize = envOr (VALUESTORE_PAGESIZE env) (4 * 1024 * 1024),
       minValueAlloc = 0,
       checksumInterval = envOr (VALUESTORE_CHECKSUMINTERVAL env) 65532 \<rparr>"

text \<open>The clamps applied after the options have run, lines 394 to 420 of opts.go.\<close>

definition clampValueCap :: "config \<Rightarrow> config" where
  "clampValueCap cfg =
     (let cfg = (if int_lt (valueCap cfg) 0 then cfg\<lparr>valueCap := 0\<rparr> else cfg)
      in if int_gt (valueCap cfg) MaxUint32 then cfg\<lparr>valueCap := MaxUint32\<rparr> else cfg)"

definition clampChecksumInterval :: "config \<Rightarrow> config" where
  "clampChecksumInterval cfg =
     (if int_lt (checksumInterval cfg) 1 then cfg\<lparr>checksumInterval := 1\<rparr> else cfg)"

definition clampPageSize :: "config \<Rightarrow> config" where
  "clampPageSize cfg =
     (let cfg = (if int_lt (pageSize cfg) (valueCap cfg + checksumInterval cfg)
                 then cfg\<lparr>pageSize := valueCap cfg + checksumInterval cfg\<rparr> else cfg);
          cfg = (if int_lt (pageSize cfg) 40 then cfg\<lparr>pageSize := 40\<rparr> else cfg)
      in if int_gt (pageSize cfg) (MaxUint32 - 1) then cfg\<lparr>pageSize := MaxUint32 - 1\<rparr> else cfg)"

definition setMinValueAlloc :: "config \<Rightarrow> config" where
  "setMinValueAlloc cfg =
     cfg\<lparr>minValueAlloc := int_quo (checksumInterval cfg) (int_quo (pageSize cfg) 32 + 1) + 1\<rparr>"

definition resolveConfig :: "environ \<Rightarrow> (config \<Rightarrow> config) list \<Rightarrow> config" where
  "resolveConfig env opts =
     setMinValueAlloc (clampPageSize (clampChecksumInterval (clampValueCap
       (fold (\<lambda>opt cfg. opt cfg) opts (configDefaults env)))))"

section \<open>Configuration resolution (the \<open>Config\<close> struct)\<close>

record Config =
  ValueCap :: go_int
  ChecksumInterval :: go_int
  PageSize :: go_int
  minValueAlloc' :: go_int

record Environ =
  VALUESTORE_VALUE_CAP :: "go_int option"
  VALUESTORE_CHECKSUM_INTERVAL :: "go_int option"
  VALUESTORE_PAGE_SIZE :: "go_int option"

text \<open>A \<open>nil\<close> argument is the zero \<open>Config\<close>.\<close>

definition zeroConfig :: Config where
  "zeroConfig = \<lparr> ValueCap = 0, ChecksumInterval = 0, PageSize = 0, minValueAlloc' = 0 \<rparr>"

definition resolveValueCap :: "Environ \<Rightarrow> Config \<Rightarrow> Config" where
  "resolveValueCap env cfg =
     (let cfg = cfg\<lparr>ValueCap := envOr (VALUESTORE_VALUE_CAP env) (ValueCap cfg)\<rparr>;
          cfg = (if ValueCap cfg = 0 then cfg\<lparr>ValueCap := 4 * 1024 * 1024\<rparr> else cfg);
          cfg = (if int_lt (ValueCap cfg) 0 then cfg\<lparr>ValueCap := 0\<rparr> else cfg)
      in if int_gt (ValueCap cfg) MaxUint32 then cfg\<lparr>ValueCap := MaxUint32\<rparr> else cfg)"

definition resolveChecksumInterval :: "Environ \<Rightarrow> Config \<Rightarrow> Config" where
  "resolveChecksumInterval env cfg =
     (let cfg = cfg\<lparr>ChecksumInterval := envOr (VALUESTORE_CHECKSUM_INTERVAL env) (ChecksumInterval cfg)\<rparr>;
          cfg = (if ChecksumInterval cfg = 0 then cfg\<lparr>ChecksumInterval := 64 * 1024 - 4\<rparr> else cfg)
      in if int_lt (ChecksumInterval cfg) 1 then cfg\<lparr>ChecksumInterval := 1\<rparr> else cfg)"

definition resolvePageSize :: "Environ \<Rightarrow> Config \<Rightarrow> Config" where
  "resolvePageSize env cfg =
     (let cfg = cfg\<lparr>PageSize := envOr (VALUESTORE_PAGE_SIZE env) (PageSize cfg)\<rparr>;
          cfg = (if PageSize cfg = 0 then cfg\<lparr>PageSize := 4 * 1024 * 1024\<rparr> else cfg);
          cfg = (if int_lt (PageSize cfg) (ValueCap cfg + ChecksumInterval cfg)
                 then cfg\<lparr>PageSize := ValueCap cfg + ChecksumInterval cfg\<rparr> else cfg);
          cfg = (if int_lt (PageSize cfg) 40 then cfg\<lparr>PageSize := 40\<rparr> else cfg);
          cfg = (if int_gt (PageSize cfg) (MaxUint32 - 1) then cfg\<lparr>PageSize := MaxUint32 - 1\<rparr> else cfg)
      in cfg\<lparr>minValueAlloc' := int_quo (ChecksumInterval cfg) (int_quo (PageSize cfg) 32 + 1) + 1\<rparr>)"

definition resolveConfig' :: "Environ \<Rightarrow> Config option \<Rightarrow> Config" where
  "resolveConfig' env c =
     resolvePageSize env (resolveChecksumInterval env (resolveValueCap env
       (case c of None \<Rightarrow> zeroConfig | Some c \<Rightarrow> c)))"


section \<open>Errors\<close>

text \<open>
  \<open>EOF\<close> and \<open>ErrNotFound\<close> are the error values the source returns; the panics are the
  run-time panics of Go that the modelled functions can raise (a slice expression or an
  index out of range, \<open>make\<close> with a length no slice can have, \<open>rand.Intn\<close> of a
  non-positive bound).
\<close>

datatype error = EOF | ErrNotFound | ErrOther | PanicBounds | PanicMakeSlice | PanicIntn

section \<open>Timestamp bits\<close>

text \<open>
  Modelled from the spec: the constants \<open>_TSB_UTIL_BITS\<close>, \<open>_TSB_DELETION\<close> and
  \<open>_TSB_LOCAL_REMOVAL\<close> are declared in a file that is not among the sources. The spec
  gives the low 8 bits of a timestamp as utility bits, bit 0 for a deletion and bit 1 for a
  local removal.
\<close>

definition TSB_UTIL_BITS :: nat where
  "TSB_UTIL_BITS = 8"

definition TSB_DELETION :: uint64 where
  "TSB_DELETION = 1"

definition TSB_LOCAL_REMOVAL :: uint64 where
  "TSB_LOCAL_REMOVAL = 2"

text \<open>
  The test every replication scan of the source applies to a timestamp, written out three
  times there (pull out, pull in, push):
  \<^verbatim>\<open>timestampbits&_TSB_LOCAL_REMOVAL == 0 && timestampbits < cutoff &&
    (timestampbits&_TSB_DELETION == 0 || timestampbits >= tombstoneCutoff)\<close>
\<close>

definition replicable :: "uint64 \<Rightarrow> uint64 \<Rightarrow> uint64 \<Rightarrow> bool" where
  "replicable timestampbits cutoff tombstoneCutoff \<longleftrightarrow>
     timestampbits AND TSB_LOCAL_REMOVAL = 0 \<and> timestampbits < cutoff \<and>
     (timestampbits AND TSB_DELETION = 0 \<or> timestampbits \<ge> tombstoneCutoff)"

text \<open>\<^verbatim>\<open>uint64(brimtime.TimeToUnixMicro(time.Now())) << _TSB_UTIL_BITS\<close>, from the clock's microseconds.\<close>

definition timestampbitsOf :: "uint64 \<Rightarrow> uint64" where
  "timestampbitsOf micro = push_bit TSB_UTIL_BITS micro"

section \<open>The value location map\<close>

text \<open>
  Modelled from the spec: the value location map is an external package. Section 4.1 of
  the spec gives its contract; the map is kept as the list of its entries, in the order a
  scan visits them. \<open>ScanCount\<close> counts the entries whose \<open>keyA\<close> lies in the range and
  stops at the ceiling. The three-argument \<open>ScanCallback\<close> that the pull replication code
  calls invokes the callback on every entry of the range; the seven-argument one of the push
  replication code skips entries that lack a bit of the mask, have a bit of \<open>notMask\<close>,
  are not older than \<open>cutoff\<close> or are above \<open>tsbMax\<close>, and stops when the callback
  returns false.
\<close>

record entry =
  keyA :: uint64
  keyB :: uint64
  timestampbits :: uint64
  blockID :: uint32
  offset :: uint32
  elength :: uint32

type_synonym ValueLocMap = "entry list"

definition inRange :: "uint64 \<Rightarrow> uint64 \<Rightarrow> entry \<Rightarrow> bool" where
  "inRange start stop e \<longleftrightarrow> start \<le> keyA e \<and> keyA e \<le> stop"

definition ScanCount :: "ValueLocMap \<Rightarrow> uint64 \<Rightarrow> uint64 \<Rightarrow> uint64 \<Rightarrow> uint64" where
  "ScanCount vlm start stop mx =
     (let n = length (filter (inRange start stop) vlm)
      in if unat mx \<le> n then mx else of_nat n)"

definition ScanCallback :: "ValueLocMap \<Rightarrow> uint64 \<Rightarrow> uint64 \<Rightarrow> (entry \<Rightarrow> 's \<Rightarrow> 's) \<Rightarrow> 's \<Rightarrow> 's" where
  "ScanCallback vlm start stop callback s = fold callback (filter (inRange start stop) vlm) s"

definition scanMatch :: "uint64 \<Rightarrow> uint64 \<Rightarrow> uint64 \<Rightarrow> uint64 \<Rightarrow> uint64 \<Rightarrow> uint64 \<Rightarrow> entry \<Rightarrow> bool" where
  "scanMatch start stop msk notMask cutoff tsbMax e \<longleftrightarrow>
     inRange start stop e \<and> timestampbits e AND msk = msk \<and>
     timestampbits e AND notMask = 0 \<and> timestampbits e < cutoff \<and> timestampbits e \<le> tsbMax"

fun scanUntil :: "(entry \<Rightarrow> 's \<Rightarrow> bool \<times> 's) \<Rightarrow> entry list \<Rightarrow> 's \<Rightarrow> 's" where
  "scanUntil callback [] s = s"
| "scanUntil callback (e # es) s =
     (case callback e s of (continue, s') \<Rightarrow> if continue then scanUntil callback es s' else s')"

definition ScanCallbackMasked ::
  "ValueLocMap \<Rightarrow> uint64 \<Rightarrow> uint64 \<Rightarrow> uint64 \<Rightarrow> uint64 \<Rightarrow> uint64 \<Rightarrow> uint64 \<Rightarrow>
     (entry \<Rightarrow> 's \<Rightarrow> bool \<times> 's) \<Rightarrow> 's \<Rightarrow> 's" where
  "ScanCallbackMasked vlm start stop msk notMask cutoff tsbMax callback s =
     scanUntil callback (filter (scanMatch start stop msk notMask cutoff tsbMax) vlm) s"

section \<open>The k-tuple bloom filter\<close>

text \<open>
  Modelled from the spec: the bloom filter is not among the sources and the spec needs only
  its contract. The filter is kept as its salt and the keys added since the last reset; how
  it hashes them into bits is left to \<open>toMsg\<close>, a parameter of the functions below.
\<close>

record ktBloomFilter =
  salt :: uint16
  members :: "(uint64 \<times> uint64 \<times> uint64) list"

definition newKTBloomFilter :: "uint16 \<Rightarrow> ktBloomFilter" where
  "newKTBloomFilter s = \<lparr> salt = s, members = [] \<rparr>"

definition ktbf_reset :: "uint16 \<Rightarrow> ktBloomFilter \<Rightarrow> ktBloomFilter" where
  "ktbf_reset s ktbf = ktbf\<lparr>salt := s, members := []\<rparr>"

definition ktbf_add :: "uint64 \<Rightarrow> uint64 \<Rightarrow> uint64 \<Rightarrow> ktBloomFilter \<Rightarrow> ktBloomFilter" where
  "ktbf_add a b t ktbf = ktbf\<lparr>members := members ktbf @ [(a, b, t)]\<rparr>"

section \<open>Big-endian integers in byte slices\<close>

definition be64 :: "uint64 \<Rightarrow> byte list" where
  "be64 v = [ucast (drop_bit 56 v), ucast (drop_bit 48 v), ucast (drop_bit 40 v),
             ucast (drop_bit 32 v), ucast (drop_bit 24 v), ucast (drop_bit 16 v),
             ucast (drop_bit 8 v), ucast v]"

definition be32 :: "uint32 \<Rightarrow> byte list" where
  "be32 v = [ucast (drop_bit 24 v), ucast (drop_bit 16 v), ucast (drop_bit 8 v), ucast v]"

fun rd64 :: "byte list \<Rightarrow> uint64" where
  "rd64 [b0, b1, b2, b3, b4, b5, b6, b7] =
     ucast b7 OR push_bit 8 (ucast b6) OR push_bit 16 (ucast b5) OR push_bit 24 (ucast b4) OR
     push_bit 32 (ucast b3) OR push_bit 40 (ucast b2) OR push_bit 48 (ucast b1) OR
     push_bit 56 (ucast b0)"
| "rd64 _ = 0"

fun rd32 :: "byte list \<Rightarrow> uint32" where
  "rd32 [b0, b1, b2, b3] =
     ucast b3 OR push_bit 8 (ucast b2) OR push_bit 16 (ucast b1) OR push_bit 24 (ucast b0)"
| "rd32 _ = 0"

text \<open>
  \<open>binary.BigEndian.PutUint64(b[off:], v)\<close> and its siblings. The slice expression panics
  when \<open>off\<close> is beyond the slice, the access when fewer than 8 (or 4) bytes follow.
\<close>

definition PutUint64 :: "byte list \<Rightarrow> nat \<Rightarrow> uint64 \<Rightarrow> error + byte list" where
  "PutUint64 b off v =
     (if length b < off + 8 then Inl PanicBounds
      else Inr (take off b @ be64 v @ drop (off + 8) b))"

definition PutUint32 :: "byte list \<Rightarrow> nat \<Rightarrow> uint32 \<Rightarrow> error + byte list" where
  "PutUint32 b off v =
     (if length b < off + 4 then Inl PanicBounds
      else Inr (take off b @ be32 v @ drop (off + 4) b))"

definition Uint64 :: "byte list \<Rightarrow> nat \<Rightarrow> error + uint64" where
  "Uint64 b off = (if length b < off + 8 then Inl PanicBounds else Inr (rd64 (take 8 (drop off b))))"

definition Uint32 :: "byte list \<Rightarrow> nat \<Rightarrow> error + uint32" where
  "Uint32 b off = (if length b < off + 4 then Inl PanicBounds else Inr (rd32 (take 4 (drop off b))))"

section \<open>Pull replication messages\<close>

definition pullReplicationMsgHeaderBytes :: nat where
  "pullReplicationMsgHeaderBytes = 44"

record pullReplicationMsg =
  header :: "byte list"
  body :: "byte list"

text \<open>
  \<open>ktbf.toMsg(prm, offset)\<close> is not among the sources. It is given the offset at which the
  filter's own header starts in \<open>prm.header\<close>; the bytes it produces (filter header and
  filter bits) are the parameter \<open>toMsg\<close>.
\<close>

definition ktbf_toMsg ::
  "(ktBloomFilter \<Rightarrow> byte list \<times> byte list) \<Rightarrow> ktBloomFilter \<Rightarrow> pullReplicationMsg \<Rightarrow> nat \<Rightarrow> pullReplicationMsg" where
  "ktbf_toMsg toMsg ktbf prm off =
     (case toMsg ktbf of (h, bits) \<Rightarrow>
        prm\<lparr>header := take off (header prm) @ h @ drop (off + length h) (header prm), body := bits\<rparr>)"

text \<open>
  \<open>newOutPullReplicationMsg\<close>. The message \<open>prm\<close> is the one received from the pool
  \<open>outMsgChan\<close>, with whatever a previous use left in it; \<open>nodeID\<close> is \<open>vs.ring.NodeID()\<close>.
\<close>

definition newOutPullReplicationMsg ::
  "(ktBloomFilter \<Rightarrow> byte list \<times> byte list) \<Rightarrow> pullReplicationMsg \<Rightarrow> uint64 \<Rightarrow> uint64 \<Rightarrow> uint32 \<Rightarrow>
     uint64 \<Rightarrow> uint64 \<Rightarrow> uint64 \<Rightarrow> ktBloomFilter \<Rightarrow> error + pullReplicationMsg" where
  "newOutPullReplicationMsg toMsg prm nodeID ringID p cutoff rangeStart rangeStop ktbf =
     (case PutUint64 (header prm) 0 nodeID of Inl e \<Rightarrow> Inl e | Inr h \<Rightarrow>
      case PutUint64 h 8 ringID of Inl e \<Rightarrow> Inl e | Inr h \<Rightarrow>
      case PutUint32 h 16 p of Inl e \<Rightarrow> Inl e | Inr h \<Rightarrow>
      case PutUint64 h 20 cutoff of Inl e \<Rightarrow> Inl e | Inr h \<Rightarrow>
      case PutUint64 h 28 rangeStart of Inl e \<Rightarrow> Inl e | Inr h \<Rightarrow>
      case PutUint64 h 36 rangeStop of Inl e \<Rightarrow> Inl e | Inr h \<Rightarrow>
        Inr (ktbf_toMsg toMsg ktbf (prm\<lparr>header := h\<rparr>) pullReplicationMsgHeaderBytes))"

definition prm_nodeID :: "pullReplicationMsg \<Rightarrow> error + uint64" where
  "prm_nodeID prm = Uint64 (header prm) 0"

definition prm_ringID :: "pullReplicationMsg \<Rightarrow> error + uint64" where
  "prm_ringID prm = Uint64 (header prm) 8"

definition prm_partition :: "pullReplicationMsg \<Rightarrow> error + uint32" where
  "prm_partition prm = Uint32 (header prm) 16"

definition prm_cutoff :: "pullReplicationMsg \<Rightarrow> error + uint64" where
  "prm_cutoff prm = Uint64 (header prm) 20"

definition prm_rangeStart :: "pullReplicationMsg \<Rightarrow> error + uint64" where
  "prm_rangeStart prm = Uint64 (header prm) 28"

definition prm_rangeStop :: "pullReplicationMsg \<Rightarrow> error + uint64" where
  "prm_rangeStop prm = Uint64 (header prm) 36"

definition MsgLength :: "pullReplicationMsg \<Rightarrow> nat" where
  "MsgLength prm = length (header prm) + length (body prm)"

section \<open>Outgoing pull replication\<close>

definition GLH_BLOOM_FILTER_N :: uint64 where
  "GLH_BLOOM_FILTER_N = 1000000"

definition MaxUint16 :: uint16 where
  "MaxUint16 = 65535"

text \<open>
  The ring, as the passes use it. The pull replication pass reads \<open>ID\<close> and
  \<open>PartitionPower\<close> once when it starts, \<open>NodeID\<close> and \<open>Responsible\<close> as it goes;
  the push replication pass, written against a later ring package, reads \<open>Version\<close> and
  \<open>PartitionBitCount\<close> instead.
\<close>

record Ring =
  ID :: uint64
  NodeID :: uint64
  PartitionPower :: nat
  Version :: int
  PartitionBitCount :: nat
  Responsible :: "uint32 \<Rightarrow> bool"

text \<open>
  The fields of \<open>DefaultValueStore\<close> that the replication passes read or write, the
  nested \<open>pullReplicationState\<close>, \<open>pushReplicationState\<close>, \<open>bulkSetState\<close> and
  \<open>tombstoneDiscardState\<close> flattened: \<open>outWorkers\<close> is the number of pull replication
  workers, \<open>pushWorkers\<close> that of the push replication workers, \<open>tombstoneAge\<close> is
  \<open>tombstoneDiscardState.age\<close> and \<open>msgCap\<close> is \<open>bulkSetState.msgCap\<close>. \<open>msgRing\<close> is
  the ring that \<open>vs.msgRing.Ring()\<close> gives when the push pass starts, \<open>None\<close> when
  there is no \<open>msgRing\<close> or it has no ring.
\<close>

record DefaultValueStore =
  ring :: "Ring option"
  msgRing :: "Ring option"
  vlm :: ValueLocMap
  outIteration :: uint16
  outWorkers :: nat
  pushWorkers :: nat
  outKTBFs :: "ktBloomFilter list"
  replicationIgnoreRecent :: uint64
  tombstoneAge :: uint64
  msgCap :: nat

text \<open>
  What other goroutines decide while a worker runs: the value of the abort flag, the ring's
  current identifier (for the push pass, its version, \<open>None\<close> when there is no ring) and
  the clock's microseconds, each as the worker finds it at its \<open>n\<close>-th such read.
\<close>

record world =
  abortAt :: "nat \<Rightarrow> bool"
  ringIDAt :: "nat \<Rightarrow> uint64"
  ringVersionAt :: "nat \<Rightarrow> int option"
  nowAt :: "nat \<Rightarrow> uint64"

datatype event = Reset uint16 | MsgToOtherReplicas uint64 uint32 pullReplicationMsg

record wstate =
  tick :: nat
  ktbf :: ktBloomFilter
  trace :: "event list"

definition loadAbort :: "world \<Rightarrow> wstate \<Rightarrow> bool \<times> wstate" where
  "loadAbort w st = (abortAt w (tick st), st\<lparr>tick := Suc (tick st)\<rparr>)"

definition loadRingID :: "world \<Rightarrow> wstate \<Rightarrow> uint64 \<times> wstate" where
  "loadRingID w st = (ringIDAt w (tick st), st\<lparr>tick := Suc (tick st)\<rparr>)"

definition loadNow :: "world \<Rightarrow> wstate \<Rightarrow> uint64 \<times> wstate" where
  "loadNow w st = (nowAt w (tick st), st\<lparr>tick := Suc (tick st)\<rparr>)"

text \<open>
  The loop that sizes the sub-range:
  \<^verbatim>\<open>for vs.vlm.ScanCount(start, start+(pullSize-1), N) >= N { pullSize /= 2 }\<close>
  It need not end (once \<open>pullSize\<close> is 0 nothing changes any more), so it is a partial
  function: \<open>None\<close> is the loop that runs forever.
\<close>

partial_function (option) halve :: "ValueLocMap \<Rightarrow> uint64 \<Rightarrow> uint64 \<Rightarrow> uint64 option" where
  "halve m start pullSize =
     (if ScanCount m start (start + (pullSize - 1)) GLH_BLOOM_FILTER_N \<ge> GLH_BLOOM_FILTER_N
      then halve m start (pullSize div 2) else Some pullSize)"

text \<open>The callback of the scan that fills the bloom filter.\<close>

definition scanAdd :: "uint64 \<Rightarrow> uint64 \<Rightarrow> entry \<Rightarrow> ktBloomFilter \<Rightarrow> ktBloomFilter" where
  "scanAdd cutoff tombstoneCutoff e fl =
     (if replicable (timestampbits e) cutoff tombstoneCutoff
      then ktbf_add (keyA e) (keyB e) (timestampbits e) fl else fl)"

text \<open>
  What the closure \<open>f\<close> captures: the worker's view of the world, the store, the ring and
  the \<open>ringID\<close> read when the pass started; with them the serialisation of the filter and
  the message the pool hands out, which are not part of the sources.
\<close>

record subrangeJob =
  job_world :: world
  job_toMsg :: "ktBloomFilter \<Rightarrow> byte list \<times> byte list"
  job_freeMsg :: pullReplicationMsg
  job_vs :: DefaultValueStore
  job_ring :: Ring
  job_ringID :: uint64

text \<open>
  The loop over the sub-ranges of a partition, lines 240 to 259. \<open>sendBody\<close> is one
  turn of it, from the test of the abort flag to the test
  \<^verbatim>\<open>substop > stop || substop < stop\<close>: it either leaves the loop (\<open>Break\<close>) or goes
  round again with the next sub-range (\<open>Next\<close>). \<open>sendLoop\<close> is the loop; \<open>None\<close> is
  the loop that runs forever.
\<close>

datatype ('r, 's) turn = Break 'r | Next 's

definition sendBody ::
  "subrangeJob \<Rightarrow> uint32 \<Rightarrow> uint64 \<Rightarrow> uint64 \<Rightarrow> uint64 \<Rightarrow> uint64 \<Rightarrow> uint64 \<Rightarrow> uint64 \<Rightarrow> wstate
     \<Rightarrow> (error + wstate, uint64 \<times> uint64 \<times> wstate) turn" where
  "sendBody j p cutoff tombstoneCutoff pullSize stop substart substop st =
     (case loadAbort (job_world j) st of (a, st) \<Rightarrow>
      if a then Break (Inr st)
      else
        let st = st\<lparr>ktbf := ktbf_reset (outIteration (job_vs j)) (ktbf st),
                      trace := trace st @ [Reset (outIteration (job_vs j))]\<rparr>;
            st = st\<lparr>ktbf := ScanCallback (vlm (job_vs j)) substart substop
                                 (scanAdd cutoff tombstoneCutoff) (ktbf st)\<rparr>
        in (case loadAbort (job_world j) st of (a, st) \<Rightarrow>
            if a then Break (Inr st)
            else
              (case newOutPullReplicationMsg (job_toMsg j) (job_freeMsg j) (NodeID (job_ring j))
                     (job_ringID j) p cutoff substart substop (ktbf st) of
                 Inl e \<Rightarrow> Break (Inl e)
               | Inr prm \<Rightarrow>
                   let st = st\<lparr>trace := trace st @ [MsgToOtherReplicas (job_ringID j) p prm]\<rparr>;
                       substart = substart + pullSize;
                       substop = substop + pullSize
                   in if substop > stop \<or> substop < stop then Break (Inr st)
                      else Next (substart, substop, st))))"

partial_function (option) sendLoop ::
  "subrangeJob \<Rightarrow> uint32 \<Rightarrow> uint64 \<Rightarrow> uint64 \<Rightarrow> uint64 \<Rightarrow> uint64 \<Rightarrow> uint64 \<Rightarrow> uint64 \<Rightarrow> wstate
     \<Rightarrow> (error + wstate) option" where
  "sendLoop j p cutoff tombstoneCutoff pullSize stop substart substop st =
     (case sendBody j p cutoff tombstoneCutoff pullSize stop substart substop st of
        Break r \<Rightarrow> Some r
      | Next (substart, substop, st) \<Rightarrow>
          sendLoop j p cutoff tombstoneCutoff pullSize stop substart substop st)"

definition f :: "subrangeJob \<Rightarrow> nat \<Rightarrow> uint32 \<Rightarrow> wstate \<Rightarrow> (error + wstate) option" where
  "f j partitionPower p st =
     (let start = push_bit (64 - partitionPower) (ucast p :: uint64);
          stop = start + (push_bit (64 - partitionPower) 1 - 1);
          pullSize = push_bit (64 - partitionPower) 1
      in (case halve (vlm (job_vs j)) start pullSize of
            None \<Rightarrow> None
          | Some pullSize \<Rightarrow>
              (case loadNow (job_world j) st of (now, st) \<Rightarrow>
                 let timestampbitsnow = timestampbitsOf now;
                     cutoff = timestampbitsnow - replicationIgnoreRecent (job_vs j);
                     tombstoneCutoff = timestampbitsnow - tombstoneAge (job_vs j);
                     substart = start;
                     substop = start + (pullSize - 1)
                 in sendLoop j p cutoff tombstoneCutoff pullSize stop substart substop st)))"

text \<open>
  One of the two loops of a worker:
  \<^verbatim>\<open>for p := ...; p < bound && atomic.LoadUint32(&outAbort) == 0; p += outWorkers\<close>.
  \<open>partitionBody\<close> is one turn of it, the loop condition included, up to the call of
  \<open>f\<close>: it leaves the loop, or says whether \<open>f\<close> is to run on \<open>p\<close>.
\<close>

definition partitionBody ::
  "subrangeJob \<Rightarrow> uint32 \<Rightarrow> uint32 \<Rightarrow> wstate \<Rightarrow> (wstate, bool \<times> wstate) turn" where
  "partitionBody j bound p st =
     (if p < bound then
        (case loadAbort (job_world j) st of (a, st) \<Rightarrow>
         if a then Break st
         else (case loadRingID (job_world j) st of (rid, st) \<Rightarrow>
           if rid \<noteq> job_ringID j then Break st
           else Next (Responsible (job_ring j) p, st)))
      else Break st)"

partial_function (option) partitionLoop ::
  "subrangeJob \<Rightarrow> nat \<Rightarrow> uint32 \<Rightarrow> uint32 \<Rightarrow> uint32 \<Rightarrow> wstate \<Rightarrow> (error + wstate) option" where
  "partitionLoop j partitionPower step bound p st =
     (case partitionBody j bound p st of
        Break st \<Rightarrow> Some (Inr st)
      | Next (responsible, st) \<Rightarrow>
          (case (if responsible then f j partitionPower p st else Some (Inr st)) of
             None \<Rightarrow> None
           | Some (Inl e) \<Rightarrow> Some (Inl e)
           | Some (Inr st) \<Rightarrow> partitionLoop j partitionPower step bound (p + step) st))"

definition pullWorker :: "subrangeJob \<Rightarrow> nat \<Rightarrow> uint32 \<Rightarrow> uint32 \<Rightarrow> nat \<Rightarrow> (error + wstate) option" where
  "pullWorker j partitionPower partitions sp g =
     (let st = \<lparr> tick = 0, ktbf = outKTBFs (job_vs j) ! g, trace = [] \<rparr>;
          step = of_nat (outWorkers (job_vs j))
      in (case partitionLoop j partitionPower step partitions (sp + of_nat g) st of
            None \<Rightarrow> None
          | Some (Inl e) \<Rightarrow> Some (Inl e)
          | Some (Inr st) \<Rightarrow> partitionLoop j partitionPower step sp (of_nat g) st))"

text \<open>\<open>wg.Wait()\<close>: the pass goes on when every worker is done.\<close>

fun joinWorkers :: "(error + wstate) option list \<Rightarrow> (error + wstate list) option" where
  "joinWorkers [] = Some (Inr [])"
| "joinWorkers (r # rs) =
     (case r of
        None \<Rightarrow> None
      | Some (Inl e) \<Rightarrow> Some (Inl e)
      | Some (Inr st) \<Rightarrow>
          (case joinWorkers rs of
             None \<Rightarrow> None
           | Some (Inl e) \<Rightarrow> Some (Inl e)
           | Some (Inr sts) \<Rightarrow> Some (Inr (st # sts))))"

text \<open>Lines 211 to 215: the iteration salt of the pass.\<close>

definition nextIteration :: "DefaultValueStore \<Rightarrow> DefaultValueStore" where
  "nextIteration vs =
     (if outIteration vs = MaxUint16 then vs\<lparr>outIteration := 0\<rparr>
      else vs\<lparr>outIteration := outIteration vs + 1\<rparr>)"

text \<open>Lines 219 to 221: one bloom filter for each worker.\<close>

definition growKTBFs :: "DefaultValueStore \<Rightarrow> DefaultValueStore" where
  "growKTBFs vs =
     vs\<lparr>outKTBFs := outKTBFs vs @
           replicate (outWorkers vs - length (outKTBFs vs)) (newKTBloomFilter 0)\<rparr>"

text \<open>
  \<open>outPullReplicationPass\<close>. The workers are goroutines; each is followed on its own, with
  its own view of the world (\<open>worlds g\<close>). The pass returns the store as the pass itself
  leaves it (the salt and the list of filters are written before the workers start), and
  what \<open>wg.Wait()\<close> gives: the final state of each worker, a panic, or \<open>None\<close> when a
  worker never finishes. \<open>rnd\<close> is the random number that \<open>vs.rand.Intn\<close> reduces to a
  partition, and \<open>Intn\<close> panics when there is no partition to choose from.
\<close>

definition outPullReplicationPass ::
  "(nat \<Rightarrow> world) \<Rightarrow> (ktBloomFilter \<Rightarrow> byte list \<times> byte list) \<Rightarrow> pullReplicationMsg \<Rightarrow> nat \<Rightarrow>
     DefaultValueStore \<Rightarrow> DefaultValueStore \<times> (error + wstate list) option" where
  "outPullReplicationPass worlds toMsg freeMsg rnd vs =
     (case ring vs of
        None \<Rightarrow> (vs, Some (Inr []))
      | Some r \<Rightarrow>
          let vs = nextIteration vs;
              ringID = ID r;
              partitionPower = PartitionPower r;
              partitions = push_bit partitionPower (1 :: uint32);
              vs = growKTBFs vs
          in if partitions = 0 then (vs, Some (Inl PanicIntn))
             else
               let sp = of_nat (rnd mod unat partitions) :: uint32;
                   job = (\<lambda>g. \<lparr> job_world = worlds g, job_toMsg = toMsg, job_freeMsg = freeMsg,
                                 job_vs = vs, job_ring = r, job_ringID = ringID \<rparr>)
               in (vs, joinWorkers (map (\<lambda>g. pullWorker (job g) partitionPower partitions sp g)
                                        [0..<outWorkers vs])))"

text \<open>Every reset recorded in a worker's trace used the salt \<open>s\<close>.\<close>

definition resetsUse :: "uint16 \<Rightarrow> wstate \<Rightarrow> bool" where
  "resetsUse s st \<longleftrightarrow> (\<forall>s'. Reset s' \<in> set (trace st) \<longrightarrow> s' = s)"

section \<open>Bulk-set messages\<close>

text \<open>
  Modelled from the spec: the bulk-set message is declared in a file that is not among the
  sources. Section 3 of the spec gives it an 8-byte header and entries of
  \<open>keyA:8, keyB:8, tsb:8, length:4\<close> and the value, capped in size; \<open>add\<close> appends an
  entry and returns true, or returns false and leaves the message as it is when the entry
  does not fit. The body is kept as the list of its entries.
\<close>

definition BULK_SET_MSG_HEADER_LENGTH :: nat where
  "BULK_SET_MSG_HEADER_LENGTH = 8"

definition BULK_SET_MSG_ENTRY_HEADER_LENGTH :: nat where
  "BULK_SET_MSG_ENTRY_HEADER_LENGTH = 28"

type_synonym bulkSetEntry = "uint64 \<times> uint64 \<times> uint64 \<times> byte list"

record bulkSetMsg =
  bsm_cap :: nat
  bsm_header :: uint64
  bsm_body :: "bulkSetEntry list"

definition entryLength :: "bulkSetEntry \<Rightarrow> nat" where
  "entryLength e = (case e of (a, b, t, v) \<Rightarrow> BULK_SET_MSG_ENTRY_HEADER_LENGTH + length v)"

definition bsm_MsgLength :: "bulkSetMsg \<Rightarrow> nat" where
  "bsm_MsgLength bsm = BULK_SET_MSG_HEADER_LENGTH + sum_list (map entryLength (bsm_body bsm))"

definition newOutBulkSetMsg :: "nat \<Rightarrow> bulkSetMsg" where
  "newOutBulkSetMsg cap = \<lparr> bsm_cap = cap, bsm_header = 0, bsm_body = [] \<rparr>"

definition bsm_add :: "bulkSetMsg \<Rightarrow> uint64 \<Rightarrow> uint64 \<Rightarrow> uint64 \<Rightarrow> byte list \<Rightarrow> bool \<times> bulkSetMsg" where
  "bsm_add bsm a b t v =
     (if bsm_MsgLength bsm + entryLength (a, b, t, v) \<le> bsm_cap bsm
      then (True, bsm\<lparr>bsm_body := bsm_body bsm @ [(a, b, t, v)]\<rparr>)
      else (False, bsm))"

section \<open>Incoming pull replication\<close>


text \<open>
  The second loop of \<open>inPullReplication\<close>, lines 122 to 136, over the pairs of \<open>k\<close>.
  \<open>read\<close> is \<open>vs.read\<close>, which is not among the sources: it gives the timestamp bits,
  the value and the error. \<open>inPullFillStep\<close> is one turn of the loop: the message after
  it, and false when the loop is left because \<open>add\<close> failed.
\<close>

type_synonym reader_fn = "uint64 \<Rightarrow> uint64 \<Rightarrow> uint64 \<times> byte list \<times> error option"




section \<open>Outgoing push replication\<close>

definition MaxUint64 :: uint64 where
  "MaxUint64 = 18446744073709551615"

text \<open>
  The numbers that \<open>outPushReplicationPass\<close> derives from the ring and the number of
  workers before it starts the workers, lines 132 to 136. \<open>pbc\<close> is the ring's
  \<open>PartitionBitCount()\<close>, an unsigned number of at most 64 (the shift \<open>64 - pbc\<close> is
  kept as a natural number); a shift by 64 or more gives 0, in Go as for \<open>push_bit\<close>.
  \<open>workers\<close> is \<open>pushReplicationState.outWorkers\<close>.
\<close>

definition partitionShift :: "nat \<Rightarrow> nat" where
  "partitionShift pbc = 64 - pbc"

definition partitionMax :: "nat \<Rightarrow> uint64" where
  "partitionMax pbc = push_bit pbc 1 - 1"

definition workerMax :: "nat \<Rightarrow> uint64" where
  "workerMax workers = of_nat workers - 1"

definition workerPartitionPiece :: "nat \<Rightarrow> nat \<Rightarrow> uint64" where
  "workerPartitionPiece pbc workers = push_bit (partitionShift pbc) 1 div (workerMax workers + 1)"

text \<open>The range of \<open>keyA\<close> that \<open>work\<close> scans, lines 146 to 159.\<close>

definition rangeBegin :: "nat \<Rightarrow> nat \<Rightarrow> uint64 \<Rightarrow> uint64 \<Rightarrow> uint64" where
  "rangeBegin pbc workers p worker =
     (let partitionOnLeftBits = push_bit (partitionShift pbc) p
      in partitionOnLeftBits + workerPartitionPiece pbc workers * worker)"

definition rangeEnd :: "nat \<Rightarrow> nat \<Rightarrow> uint64 \<Rightarrow> uint64 \<Rightarrow> uint64" where
  "rangeEnd pbc workers p worker =
     (let partitionOnLeftBits = push_bit (partitionShift pbc) p
      in if worker \<noteq> workerMax workers
         then partitionOnLeftBits + workerPartitionPiece pbc workers * (worker + 1) - 1
         else if p \<noteq> partitionMax pbc
              then push_bit (partitionShift pbc) (p + 1) - 1
              else MaxUint64)"

text \<open>
  The callback of the scan in \<open>work\<close>, lines 170 to 180. Its state is the key list and
  \<open>availableBytes\<close>, an \<open>int64\<close> that starts at the message cap and goes down by no more
  than \<open>28 + 2^32\<close> a step, kept as an integer. It returns false to stop the scan.
\<close>

definition pushCallback :: "uint64 \<Rightarrow> entry \<Rightarrow> uint64 list \<times> int \<Rightarrow> bool \<times> uint64 list \<times> int" where
  "pushCallback tombstoneCutoff e s =
     (case s of (list, availableBytes) \<Rightarrow>
        let inMsgLength = int BULK_SET_MSG_ENTRY_HEADER_LENGTH + int (unat (elength e))
        in if timestampbits e AND TSB_DELETION = 0 \<or> timestampbits e \<ge> tombstoneCutoff then
             let list = list @ [keyA e, keyB e];
                 availableBytes = availableBytes - inMsgLength
             in if availableBytes < inMsgLength then (False, list, availableBytes)
                else (True, list, availableBytes)
           else (True, list, availableBytes))"

text \<open>
  The loop that builds the message, lines 192 to 210; \<open>pushFillStep\<close> is one turn of it,
  the message after it and false when the loop is left because \<open>add\<close> failed.
\<close>

definition pushFillStep ::
  "reader_fn \<Rightarrow> uint64 \<Rightarrow> uint64 \<Rightarrow> uint64 \<Rightarrow> uint64 \<Rightarrow> bulkSetMsg \<Rightarrow> bool \<times> bulkSetMsg" where
  "pushFillStep read cutoff tombstoneCutoff a b bsm =
     (case read a b of (t, v, err) \<Rightarrow>
        if err = Some ErrNotFound \<and> t = 0 then (True, bsm)
        else if err \<noteq> Some ErrNotFound \<and> err \<noteq> None then (True, bsm)
        else if t AND TSB_LOCAL_REMOVAL = 0 \<and> t < cutoff \<and>
                (t AND TSB_DELETION = 0 \<or> t \<ge> tombstoneCutoff)
        then bsm_add bsm a b t v
        else (True, bsm))"

fun pushFill :: "reader_fn \<Rightarrow> uint64 \<Rightarrow> uint64 \<Rightarrow> uint64 list \<Rightarrow> bulkSetMsg \<Rightarrow> bulkSetMsg" where
  "pushFill read cutoff tombstoneCutoff (a # b # list) bsm =
     (case pushFillStep read cutoff tombstoneCutoff a b bsm of (continue, bsm') \<Rightarrow>
        if continue then pushFill read cutoff tombstoneCutoff list bsm' else bsm')"
| "pushFill read cutoff tombstoneCutoff list bsm = bsm"

text \<open>
  The state of a push replication worker: the count of its reads of the world, the calls of
  \<open>work\<close> it has made (partition and worker) and the bulk-set messages it has handed to
  \<open>MsgToOtherReplicas\<close>, each with its partition.
\<close>

record pstate =
  ptick :: nat
  worked :: "(uint64 \<times> uint64) list"
  sent :: "(bulkSetMsg \<times> uint32) list"

definition pLoadAbort :: "world \<Rightarrow> pstate \<Rightarrow> bool \<times> pstate" where
  "pLoadAbort w st = (abortAt w (ptick st), st\<lparr>ptick := Suc (ptick st)\<rparr>)"

definition pLoadRingVersion :: "world \<Rightarrow> pstate \<Rightarrow> int option \<times> pstate" where
  "pLoadRingVersion w st = (ringVersionAt w (ptick st), st\<lparr>ptick := Suc (ptick st)\<rparr>)"

definition pLoadNow :: "world \<Rightarrow> pstate \<Rightarrow> uint64 \<times> pstate" where
  "pLoadNow w st = (nowAt w (ptick st), st\<lparr>ptick := Suc (ptick st)\<rparr>)"

text \<open>The scan of \<open>work\<close>: the keys gathered for one partition and worker.\<close>

definition workScan :: "DefaultValueStore \<Rightarrow> uint64 \<Rightarrow> uint64 \<Rightarrow> uint64 \<Rightarrow> uint64 \<Rightarrow> uint64 list" where
  "workScan vs rb re cutoff tombstoneCutoff =
     fst (ScanCallbackMasked (vlm vs) rb re 0 TSB_LOCAL_REMOVAL cutoff MaxUint64
            (pushCallback tombstoneCutoff) ([], int (msgCap vs)))"

text \<open>
  The closure \<open>work\<close>, lines 145 to 213. \<open>ringVersion\<close> is the version read when the pass
  started.
\<close>

definition work ::
  "world \<Rightarrow> reader_fn \<Rightarrow> DefaultValueStore \<Rightarrow> int \<Rightarrow> nat \<Rightarrow> uint64 \<Rightarrow> uint64 \<Rightarrow> pstate \<Rightarrow> pstate" where
  "work w read vs ringVersion pbc p worker st =
     (let st = st\<lparr>worked := worked st @ [(p, worker)]\<rparr>;
          rb = rangeBegin pbc (pushWorkers vs) p worker;
          re = rangeEnd pbc (pushWorkers vs) p worker
      in (case pLoadNow w st of (now, st) \<Rightarrow>
          let timestampbitsNow = timestampbitsOf now;
              cutoff = timestampbitsNow - replicationIgnoreRecent vs;
              tombstoneCutoff = timestampbitsNow - tombstoneAge vs;
              list = workScan vs rb re cutoff tombstoneCutoff
          in if length list \<le> 0 then st
             else (case pLoadAbort w st of (a, st) \<Rightarrow>
               if a then st
               else (case pLoadRingVersion w st of (ring2, st) \<Rightarrow>
                 if ring2 = None \<or> ring2 \<noteq> Some ringVersion then st
                 else
                   let bsm = pushFill read cutoff tombstoneCutoff list (newOutBulkSetMsg (msgCap vs))
                   in st\<lparr>sent := sent st @ [(bsm, ucast p)]\<rparr>))))"

text \<open>
  The loop of a worker over the partitions, lines 221 to 239. It starts at
  \<open>partitionBegin\<close>, wraps from \<open>partitionMax\<close> to 0 and ends when it is back at
  \<open>partitionBegin\<close>, or on an abort or a change of the ring. \<open>pushBody\<close> is one turn of
  it; \<open>None\<close> is the loop that runs forever.
\<close>

definition pushBody ::
  "world \<Rightarrow> reader_fn \<Rightarrow> DefaultValueStore \<Rightarrow> Ring \<Rightarrow> uint64 \<Rightarrow> uint64 \<Rightarrow> uint64 \<Rightarrow> pstate
     \<Rightarrow> (pstate, uint64 \<times> pstate) turn" where
  "pushBody w read vs r worker partitionBegin p st =
     (case pLoadAbort w st of (a, st) \<Rightarrow>
      if a then Break st
      else (case pLoadRingVersion w st of (ring2, st) \<Rightarrow>
        if ring2 = None \<or> ring2 \<noteq> Some (Version r) then Break st
        else
          let st = (if \<not> Responsible r (ucast p)
                    then work w read vs (Version r) (PartitionBitCount r) p worker st else st);
              p = p + 1;
              p = (if p > partitionMax (PartitionBitCount r) then 0 else p)
          in if p = partitionBegin then Break st else Next (p, st)))"

partial_function (option) pushLoop ::
  "world \<Rightarrow> reader_fn \<Rightarrow> DefaultValueStore \<Rightarrow> Ring \<Rightarrow> uint64 \<Rightarrow> uint64 \<Rightarrow> uint64 \<Rightarrow> pstate
     \<Rightarrow> pstate option" where
  "pushLoop w read vs r worker partitionBegin p st =
     (case pushBody w read vs r worker partitionBegin p st of
        Break st \<Rightarrow> Some st
      | Next (p, st) \<Rightarrow> pushLoop w read vs r worker partitionBegin p st)"

definition pushWorker :: "world \<Rightarrow> reader_fn \<Rightarrow> DefaultValueStore \<Rightarrow> Ring \<Rightarrow> uint64 \<Rightarrow> pstate option" where
  "pushWorker w read vs r worker =
     (let partitionBegin =
            (partitionMax (PartitionBitCount r) + 1) div (workerMax (pushWorkers vs) + 1) * worker
      in pushLoop w read vs r worker partitionBegin partitionBegin
           \<lparr> ptick = 0, worked = [], sent = [] \<rparr>)"

text \<open>
  \<open>outPushReplicationPass\<close>: nothing without a ring; otherwise one worker for each number
  from 0 to \<open>workerMax\<close>, each followed on its own with its own view of the world. The
  result is the final state of each worker, \<open>None\<close> for a worker that never finishes.
\<close>

definition outPushReplicationPass ::
  "(nat \<Rightarrow> world) \<Rightarrow> reader_fn \<Rightarrow> DefaultValueStore \<Rightarrow> pstate option list" where
  "outPushReplicationPass worlds read vs =
     (case msgRing vs of
        None \<Rightarrow> []
      | Some r \<Rightarrow> map (\<lambda>g. pushWorker (worlds g) read vs r (of_nat g)) [0..<pushWorkers vs])"

section \<open>What a scan selects\<close>

text \<open>
  The vocabulary in which the selections of the three replication scans are stated: the
  keys of a list of entries as the scans append them, the bytes an entry takes in a
  bulk-set message, and the two ways a byte budget cuts a scan short. The inbound handler
  takes an entry only while its budget is positive; the push pass takes an entry and then
  stops when what is left of the budget would not hold another entry of the same size.
\<close>

definition entryKeys :: "entry list \<Rightarrow> uint64 list" where
  "entryKeys es = concat (map (\<lambda>e. [keyA e, keyB e]) es)"

definition entryBytes :: "entry \<Rightarrow> int" where
  "entryBytes e = 28 + int (unat (elength e))"


fun untilFull :: "int \<Rightarrow> entry list \<Rightarrow> entry list" where
  "untilFull available [] = []"
| "untilFull available (e # es) =
     e # (if available - entryBytes e < entryBytes e then []
          else untilFull (available - entryBytes e) es)"

text \<open>The pairs of keys in a key list, as the two loops that build a message read them.\<close>

fun keyPairs :: "uint64 list \<Rightarrow> (uint64 \<times> uint64) list" where
  "keyPairs (a # b # k) = (a, b) # keyPairs k"
| "keyPairs k = []"

text \<open>
  What holds of a push replication worker at every moment: it has called \<open>work\<close> only for
  partitions the node is not responsible for, and every entry of every message it has sent
  carries timestamp bits without the \<open>LOCAL_REMOVAL\<close> bit and the key of an entry of the
  value location map that does not have the bit either.
\<close>

definition cleanEntry :: "DefaultValueStore \<Rightarrow> bulkSetEntry \<Rightarrow> bool" where
  "cleanEntry vs x \<longleftrightarrow>
     (case x of (a, b, t, v) \<Rightarrow>
        t AND TSB_LOCAL_REMOVAL = 0 \<and>
        (\<exists>e \<in> set (vlm vs). keyA e = a \<and> keyB e = b \<and> timestampbits e AND TSB_LOCAL_REMOVAL = 0))"

definition pushInv :: "Ring \<Rightarrow> DefaultValueStore \<Rightarrow> pstate \<Rightarrow> bool" where
  "pushInv r vs st \<longleftrightarrow>
     (\<forall>pw \<in> set (worked st). \<not> Responsible r (ucast (fst pw))) \<and>
     (\<forall>m \<in> set (sent st). \<forall>x \<in> set (bsm_body (fst m)). cleanEntry vs x)"

section \<open>A small store\<close>

text \<open>
  A store to run the pull replication pass on: a ring of two partitions of which the node
  is responsible for the first, one worker, an empty value location map, a world in which
  nobody aborts and the ring stays as it is, and the salt at its largest value. For the push
  pass it has two workers and bulk-set messages of at most 100 bytes.
\<close>

definition quietWorld :: world where
  "quietWorld = \<lparr> abortAt = (\<lambda>_. False), ringIDAt = (\<lambda>_. 7), ringVersionAt = (\<lambda>_. Some 7),
                   nowAt = (\<lambda>_. 1000) \<rparr>"

definition smallRing :: Ring where
  "smallRing = \<lparr> ID = 7, NodeID = 1, PartitionPower = 1, Version = 7, PartitionBitCount = 1,
                  Responsible = (\<lambda>p. p = 0) \<rparr>"

definition smallStore :: DefaultValueStore where
  "smallStore = \<lparr> ring = Some smallRing, msgRing = Some smallRing, vlm = [],
                   outIteration = 65535, outWorkers = 1, pushWorkers = 2, outKTBFs = [],
                   replicationIgnoreRecent = 0, tombstoneAge = 0, msgCap = 100 \<rparr>"

definition noFilterBytes :: "ktBloomFilter \<Rightarrow> byte list \<times> byte list" where
  "noFilterBytes fl = ([], [])"

definition pooledMsg :: pullReplicationMsg where
  "pooledMsg = \<lparr> header = replicate 44 0, body = [] \<rparr>"

text \<open>
  A crowded value location map: a million entries that share the \<open>keyA\<close> value \<open>2^61\<close>
  and differ in \<open>keyB\<close>, all written at timestamp 1.
\<close>

definition crowdedEntry :: "nat \<Rightarrow> entry" where
  "crowdedEntry i = \<lparr> keyA = 2305843009213693952, keyB = of_nat i, timestampbits = 256,
                        blockID = 1, offset = 0, elength = 0 \<rparr>"

definition crowdedVLM :: ValueLocMap where
  "crowdedVLM = map crowdedEntry [0..<1000000]"





section \<open>Facts about configuration resolution\<close>

lemma clampValueCap_range:
  "0 \<le> sint (valueCap (clampValueCap cfg)) \<and> sint (valueCap (clampValueCap cfg)) \<le> 4294967295"
  by (simp add: clampValueCap_def Let_def int_lt_def int_gt_def MaxUint32_def)

lemma clampChecksumInterval_range: "1 \<le> sint (checksumInterval (clampChecksumInterval cfg))"
  by (simp add: clampChecksumInterval_def int_lt_def)

lemma clampChecksumInterval_valueCap [simp]:
  "valueCap (clampChecksumInterval cfg) = valueCap cfg"
  by (simp add: clampChecksumInterval_def)

lemma setMinValueAlloc_fields [simp]:
  "pageSize (setMinValueAlloc cfg) = pageSize cfg"
  "valueCap (setMinValueAlloc cfg) = valueCap cfg"
  "checksumInterval (setMinValueAlloc cfg) = checksumInterval cfg"
  by (simp_all add: setMinValueAlloc_def)

lemma clampPageSize_fields [simp]:
  "valueCap (clampPageSize cfg) = valueCap cfg"
  "checksumInterval (clampPageSize cfg) = checksumInterval cfg"
  by (simp_all add: clampPageSize_def Let_def)

lemma clampPageSize_bounds:
  "40 \<le> sint (pageSize (clampPageSize cfg)) \<and> sint (pageSize (clampPageSize cfg)) \<le> 4294967294"
  by (simp add: clampPageSize_def Let_def int_lt_def int_gt_def MaxUint32_def)

text \<open>
  The sum of a value cap and a checksum interval as the clamps leave them wraps only when
  it reaches \<open>2^63\<close>.
\<close>

lemma sint_add_nowrap:
  fixes a b :: go_int
  assumes "0 \<le> sint a" and "1 \<le> sint b" and "sint a + sint b < 2 ^ 63"
  shows "sint (a + b) = sint a + sint b"
  using assms by (simp add: sint_word_ariths signed_take_bit_int_eq_self)

lemma clampPageSize_design:
  assumes "sint (valueCap cfg + checksumInterval cfg) = sint (valueCap cfg) + sint (checksumInterval cfg)"
  shows "min (sint (valueCap cfg) + sint (checksumInterval cfg)) 4294967294
           \<le> sint (pageSize (clampPageSize cfg))"
  using assms by (simp add: clampPageSize_def Let_def int_lt_def int_gt_def MaxUint32_def min_def)

lemma resolveValueCap_range:
  "0 \<le> sint (ValueCap (resolveValueCap env cfg)) \<and> sint (ValueCap (resolveValueCap env cfg)) \<le> 4294967295"
  by (simp add: resolveValueCap_def Let_def int_lt_def int_gt_def MaxUint32_def)

lemma resolveChecksumInterval_range:
  "1 \<le> sint (ChecksumInterval (resolveChecksumInterval env cfg))"
  by (simp add: resolveChecksumInterval_def Let_def int_lt_def)

lemma resolveChecksumInterval_ValueCap [simp]:
  "ValueCap (resolveChecksumInterval env cfg) = ValueCap cfg"
  by (simp add: resolveChecksumInterval_def Let_def)

lemma resolvePageSize_fields [simp]:
  "ValueCap (resolvePageSize env cfg) = ValueCap cfg"
  "ChecksumInterval (resolvePageSize env cfg) = ChecksumInterval cfg"
  by (simp_all add: resolvePageSize_def Let_def)

lemma resolvePageSize_bounds:
  "40 \<le> sint (PageSize (resolvePageSize env cfg)) \<and> sint (PageSize (resolvePageSize env cfg)) \<le> 4294967294"
  by (simp add: resolvePageSize_def Let_def int_lt_def int_gt_def MaxUint32_def)

lemma resolvePageSize_design:
  assumes "sint (ValueCap cfg + ChecksumInterval cfg) = sint (ValueCap cfg) + sint (ChecksumInterval cfg)"
  shows "min (sint (ValueCap cfg) + sint (ChecksumInterval cfg)) 4294967294
           \<le> sint (PageSize (resolvePageSize env cfg))"
  using assms by (simp add: resolvePageSize_def Let_def int_lt_def int_gt_def MaxUint32_def min_def)

text \<open>
  C9, as the code has it by design. After either \<open>resolveConfig\<close> the page size is at
  most \<open>2^32 - 2\<close>. Where the sum \<open>valueCap + checksumInterval\<close> of the resolved values
  does not overflow the 64-bit \<open>int\<close>, the page size is at least 40 and at least the smaller
  of that sum and \<open>2^32 - 2\<close>: the page size is raised to the sum and then capped, and the
  cap wins. Configurations whose sum overflows are left out of the lower bounds.
\<close>

theorem resolveConfig_pageSize_bounds:
  "sint (pageSize (resolveConfig env opts)) \<le> 2 ^ 32 - 2 \<and>
   (sint (valueCap (resolveConfig env opts)) + sint (checksumInterval (resolveConfig env opts)) < 2 ^ 63 \<longrightarrow>
      40 \<le> sint (pageSize (resolveConfig env opts)) \<and>
      min (sint (valueCap (resolveConfig env opts)) + sint (checksumInterval (resolveConfig env opts)))
          (2 ^ 32 - 2) \<le> sint (pageSize (resolveConfig env opts))) \<and>
   sint (PageSize (resolveConfig' env' c)) \<le> 2 ^ 32 - 2 \<and>
   (sint (ValueCap (resolveConfig' env' c)) + sint (ChecksumInterval (resolveConfig' env' c)) < 2 ^ 63 \<longrightarrow>
      40 \<le> sint (PageSize (resolveConfig' env' c)) \<and>
      min (sint (ValueCap (resolveConfig' env' c)) + sint (ChecksumInterval (resolveConfig' env' c)))
          (2 ^ 32 - 2) \<le> sint (PageSize (resolveConfig' env' c)))"
proof -
  define cfg where "cfg = clampChecksumInterval (clampValueCap (fold (\<lambda>opt cfg. opt cfg) opts (configDefaults env)))"
  have r: "resolveConfig env opts = setMinValueAlloc (clampPageSize cfg)"
    by (simp add: resolveConfig_def cfg_def)
  have vc: "0 \<le> sint (valueCap cfg)"
    using clampValueCap_range by (simp add: cfg_def)
  have ci: "1 \<le> sint (checksumInterval cfg)"
    using clampChecksumInterval_range by (simp add: cfg_def)
  have lower: "min (sint (valueCap cfg) + sint (checksumInterval cfg)) 4294967294
                 \<le> sint (pageSize (clampPageSize cfg))"
    if "sint (valueCap cfg) + sint (checksumInterval cfg) < 2 ^ 63"
    using clampPageSize_design [of cfg] sint_add_nowrap [OF vc ci that] by simp
  define cfg' where "cfg' = resolveChecksumInterval env' (resolveValueCap env'
       (case c of None \<Rightarrow> zeroConfig | Some c \<Rightarrow> c))"
  have r': "resolveConfig' env' c = resolvePageSize env' cfg'"
    by (simp add: resolveConfig'_def cfg'_def)
  have vc': "0 \<le> sint (ValueCap cfg')"
    using resolveValueCap_range by (simp add: cfg'_def)
  have ci': "1 \<le> sint (ChecksumInterval cfg')"
    using resolveChecksumInterval_range by (simp add: cfg'_def)
  have lower': "min (sint (ValueCap cfg') + sint (ChecksumInterval cfg')) 4294967294
                 \<le> sint (PageSize (resolvePageSize env' cfg'))"
    if "sint (ValueCap cfg') + sint (ChecksumInterval cfg') < 2 ^ 63"
    using resolvePageSize_design [of cfg' env'] sint_add_nowrap [OF vc' ci' that] by simp
  show ?thesis
    using clampPageSize_bounds [of cfg] resolvePageSize_bounds [of env' cfg'] lower lower'
    by (simp add: r r')
qed

text \<open>
  The theorem at two inputs. With \<open>OptValueCap(4294967295)\<close> the sum is \<open>4295032827\<close> and
  the page size is the cap, \<open>4294967294\<close>; with a value cap of 1000 and a requested page size
  of 100 the page size is raised to the sum, \<open>66532\<close>.
\<close>

theorem resolveConfig_pageSize_bounds_witness:
  "sint (valueCap (resolveConfig \<lparr>VALUESTORE_VALUECAP = None, VALUESTORE_PAGESIZE = None,
       VALUESTORE_CHECKSUMINTERVAL = None\<rparr> [OptValueCap 4294967295]))
   + sint (checksumInterval (resolveConfig \<lparr>VALUESTORE_VALUECAP = None, VALUESTORE_PAGESIZE = None,
       VALUESTORE_CHECKSUMINTERVAL = None\<rparr> [OptValueCap 4294967295])) < 2 ^ 63 \<and>
   sint (pageSize (resolveConfig \<lparr>VALUESTORE_VALUECAP = None, VALUESTORE_PAGESIZE = None,
       VALUESTORE_CHECKSUMINTERVAL = None\<rparr> [OptValueCap 4294967295])) = 4294967294 \<and>
   sint (ValueCap (resolveConfig' \<lparr>VALUESTORE_VALUE_CAP = Some 1000, VALUESTORE_CHECKSUM_INTERVAL = None,
       VALUESTORE_PAGE_SIZE = Some 100\<rparr> None))
   + sint (ChecksumInterval (resolveConfig' \<lparr>VALUESTORE_VALUE_CAP = Some 1000, VALUESTORE_CHECKSUM_INTERVAL = None,
       VALUESTORE_PAGE_SIZE = Some 100\<rparr> None)) < 2 ^ 63 \<and>
   66532 \<le> sint (PageSize (resolveConfig' \<lparr>VALUESTORE_VALUE_CAP = Some 1000, VALUESTORE_CHECKSUM_INTERVAL = None,
       VALUESTORE_PAGE_SIZE = Some 100\<rparr> None))"
  using resolveConfig_pageSize_bounds [of
      "\<lparr>VALUESTORE_VALUECAP = None, VALUESTORE_PAGESIZE = None, VALUESTORE_CHECKSUMINTERVAL = None\<rparr>"
      "[OptValueCap 4294967295]"
      "\<lparr>VALUESTORE_VALUE_CAP = Some 1000, VALUESTORE_CHECKSUM_INTERVAL = None, VALUESTORE_PAGE_SIZE = Some 100\<rparr>"
      None]
  by (simp add: resolveConfig_def setMinValueAlloc_def clampPageSize_def clampChecksumInterval_def
      clampValueCap_def configDefaults_def envOr_def OptValueCap_def Let_def int_lt_def int_gt_def
      MaxUint32_def resolveConfig'_def resolvePageSize_def resolveChecksumInterval_def
      resolveValueCap_def zeroConfig_def)

text \<open>
  The lower bound of C9 as the claim states it fails: with \<open>OptValueCap(4294967295)\<close> and
  everything else at its default, \<open>valueCap + checksumInterval = 4295032827\<close> but the page
  size is capped at \<open>4294967294\<close>.
\<close>

theorem resolveConfig_pageSize_counterexample:
  "\<not> sint (valueCap (resolveConfig \<lparr>VALUESTORE_VALUECAP = None, VALUESTORE_PAGESIZE = None,
         VALUESTORE_CHECKSUMINTERVAL = None\<rparr> [OptValueCap 4294967295]))
     + sint (checksumInterval (resolveConfig \<lparr>VALUESTORE_VALUECAP = None, VALUESTORE_PAGESIZE = None,
         VALUESTORE_CHECKSUMINTERVAL = None\<rparr> [OptValueCap 4294967295]))
     \<le> sint (pageSize (resolveConfig \<lparr>VALUESTORE_VALUECAP = None, VALUESTORE_PAGESIZE = None,
         VALUESTORE_CHECKSUMINTERVAL = None\<rparr> [OptValueCap 4294967295]))"
  by (simp add: resolveConfig_def setMinValueAlloc_def clampPageSize_def clampChecksumInterval_def
      clampValueCap_def configDefaults_def envOr_def OptValueCap_def Let_def int_lt_def int_gt_def
      MaxUint32_def)

text \<open>
  The configurations left out above. The checksum interval has no upper clamp, so the sum
  can overflow: with \<open>OptChecksumInterval(9223372036854775807)\<close> the sum wraps to a
  negative number, the page size is not raised and stays at its default \<open>4194304\<close>, below
  the cap.
\<close>

lemma resolveConfig_overflowing_sum:
  "sint (pageSize (resolveConfig \<lparr>VALUESTORE_VALUECAP = None, VALUESTORE_PAGESIZE = None,
         VALUESTORE_CHECKSUMINTERVAL = None\<rparr> [OptChecksumInterval 9223372036854775807])) = 4194304"
  by (simp add: resolveConfig_def setMinValueAlloc_def clampPageSize_def clampChecksumInterval_def
      clampValueCap_def configDefaults_def envOr_def OptChecksumInterval_def Let_def int_lt_def
      int_gt_def MaxUint32_def)

section \<open>Facts about the message header\<close>

lemma length_be64 [simp]: "length (be64 v) = 8"
  by (simp add: be64_def)

lemma length_be32 [simp]: "length (be32 v) = 4"
  by (simp add: be32_def)

lemma bit_byte_at:
  "bit (push_bit k (ucast (ucast (drop_bit k v) :: byte)) :: 'a::len word) n
     \<longleftrightarrow> k \<le> n \<and> n < k + 8 \<and> n < LENGTH('a) \<and> bit (v :: 'a word) n"
  by (auto simp: bit_simps)

lemma bit_byte_low:
  "bit (ucast (ucast v :: byte) :: 'a::len word) n \<longleftrightarrow> n < 8 \<and> n < LENGTH('a) \<and> bit (v :: 'a word) n"
  by (auto simp: bit_simps)

lemma rd64_be64 [simp]: "rd64 (be64 v) = v"
  unfolding be64_def rd64.simps
proof (rule bit_word_eqI)
  fix n :: nat
  assume n: "n < LENGTH(64)"
  consider "n < 8" | "8 \<le> n" "n < 16" | "16 \<le> n" "n < 24" | "24 \<le> n" "n < 32"
    | "32 \<le> n" "n < 40" | "40 \<le> n" "n < 48" | "48 \<le> n" "n < 56" | "56 \<le> n"
    by linarith
  then show "bit (ucast (ucast v :: byte) OR push_bit 8 (ucast (ucast (drop_bit 8 v) :: byte)) OR
       push_bit 16 (ucast (ucast (drop_bit 16 v) :: byte)) OR
       push_bit 24 (ucast (ucast (drop_bit 24 v) :: byte)) OR
       push_bit 32 (ucast (ucast (drop_bit 32 v) :: byte)) OR
       push_bit 40 (ucast (ucast (drop_bit 40 v) :: byte)) OR
       push_bit 48 (ucast (ucast (drop_bit 48 v) :: byte)) OR
       push_bit 56 (ucast (ucast (drop_bit 56 v) :: byte)) :: uint64) n = bit v n"
    using n by cases (simp_all add: bit_or_iff bit_byte_at bit_byte_low)
qed

lemma rd32_be32 [simp]: "rd32 (be32 v) = v"
  unfolding be32_def rd32.simps
proof (rule bit_word_eqI)
  fix n :: nat
  assume n: "n < LENGTH(32)"
  consider "n < 8" | "8 \<le> n" "n < 16" | "16 \<le> n" "n < 24" | "24 \<le> n"
    by linarith
  then show "bit (ucast (ucast v :: byte) OR push_bit 8 (ucast (ucast (drop_bit 8 v) :: byte)) OR
       push_bit 16 (ucast (ucast (drop_bit 16 v) :: byte)) OR
       push_bit 24 (ucast (ucast (drop_bit 24 v) :: byte)) :: uint32) n = bit v n"
    using n by cases (simp_all add: bit_or_iff bit_byte_at bit_byte_low)
qed

lemma split_at: "n \<le> length xs \<Longrightarrow> \<exists>a r. xs = a @ r \<and> length a = n"
  by (metis append_take_drop_id length_take min.absorb2)

lemma PutUint64_append:
  "length xs = off \<Longrightarrow> length old = 8 \<Longrightarrow> PutUint64 (xs @ old @ ys) off v = Inr (xs @ be64 v @ ys)"
  by (simp add: PutUint64_def)

lemma PutUint32_append:
  "length xs = off \<Longrightarrow> length old = 4 \<Longrightarrow> PutUint32 (xs @ old @ ys) off v = Inr (xs @ be32 v @ ys)"
  by (simp add: PutUint32_def)

lemma Uint64_append: "length xs = off \<Longrightarrow> Uint64 (xs @ be64 v @ ys) off = Inr v"
  by (simp add: Uint64_def)

lemma Uint32_append: "length xs = off \<Longrightarrow> Uint32 (xs @ be32 v @ ys) off = Inr v"
  by (simp add: Uint32_def)

lemma header_split:
  assumes "44 \<le> length h"
  shows "\<exists>a b c d e f r. h = a @ b @ c @ d @ e @ f @ r \<and> length a = 8 \<and> length b = 8 \<and>
           length c = 4 \<and> length d = 8 \<and> length e = 8 \<and> length (f :: byte list) = 8"
proof -
  obtain a r1 where 1: "h = a @ r1" "length a = 8" using split_at [of 8 h] assms by auto
  obtain b r2 where 2: "r1 = b @ r2" "length b = 8" using split_at [of 8 r1] assms 1 by auto
  obtain c r3 where 3: "r2 = c @ r3" "length c = 4" using split_at [of 4 r2] assms 1 2 by auto
  obtain d r4 where 4: "r3 = d @ r4" "length d = 8" using split_at [of 8 r3] assms 1 2 3 by auto
  obtain e r5 where 5: "r4 = e @ r5" "length e = 8" using split_at [of 8 r4] assms 1 2 3 4 by auto
  obtain f r6 where 6: "r5 = f @ r6" "length f = 8" using split_at [of 8 r5] assms 1 2 3 4 5 by auto
  show ?thesis using 1 2 3 4 5 6 by blast
qed

text \<open>The six writes of \<open>newOutPullReplicationMsg\<close> fill the first 44 bytes of the header.\<close>

lemma newOutPullReplicationMsg_header:
  assumes "44 \<le> length (header prm)"
  shows "\<exists>m r. newOutPullReplicationMsg toMsg prm nodeID ringID p cutoff rangeStart rangeStop fl = Inr m \<and>
     header m = be64 nodeID @ be64 ringID @ be32 p @ be64 cutoff @ be64 rangeStart @ be64 rangeStop @ r \<and>
     body m = snd (toMsg fl)"
proof -
  obtain a b c d e f r where h: "header prm = a @ b @ c @ d @ e @ f @ r" "length a = 8"
      "length b = 8" "length c = 4" "length d = 8" "length e = 8" "length f = 8"
    using header_split [OF assms] by blast
  have 1: "PutUint64 (header prm) 0 nodeID = Inr (be64 nodeID @ b @ c @ d @ e @ f @ r)"
    using PutUint64_append [of "[]" 0 a] h by simp
  have 2: "PutUint64 (be64 nodeID @ b @ c @ d @ e @ f @ r) 8 ringID
             = Inr (be64 nodeID @ be64 ringID @ c @ d @ e @ f @ r)"
    using PutUint64_append [of "be64 nodeID" 8 b] h by simp
  have 3: "PutUint32 (be64 nodeID @ be64 ringID @ c @ d @ e @ f @ r) 16 p
             = Inr (be64 nodeID @ be64 ringID @ be32 p @ d @ e @ f @ r)"
    using PutUint32_append [of "be64 nodeID @ be64 ringID" 16 c] h by simp
  have 4: "PutUint64 (be64 nodeID @ be64 ringID @ be32 p @ d @ e @ f @ r) 20 cutoff
             = Inr (be64 nodeID @ be64 ringID @ be32 p @ be64 cutoff @ e @ f @ r)"
    using PutUint64_append [of "be64 nodeID @ be64 ringID @ be32 p" 20 d] h by simp
  have 5: "PutUint64 (be64 nodeID @ be64 ringID @ be32 p @ be64 cutoff @ e @ f @ r) 28 rangeStart
             = Inr (be64 nodeID @ be64 ringID @ be32 p @ be64 cutoff @ be64 rangeStart @ f @ r)"
    using PutUint64_append [of "be64 nodeID @ be64 ringID @ be32 p @ be64 cutoff" 28 e] h by simp
  have 6: "PutUint64 (be64 nodeID @ be64 ringID @ be32 p @ be64 cutoff @ be64 rangeStart @ f @ r) 36 rangeStop
             = Inr (be64 nodeID @ be64 ringID @ be32 p @ be64 cutoff @ be64 rangeStart @ be64 rangeStop @ r)"
    using PutUint64_append [of "be64 nodeID @ be64 ringID @ be32 p @ be64 cutoff @ be64 rangeStart" 36 f] h
    by simp
  show ?thesis
    by (cases "toMsg fl")
      (simp add: newOutPullReplicationMsg_def 1 2 3 4 5 6 ktbf_toMsg_def pullReplicationMsgHeaderBytes_def)
qed

lemma accessors_of_header:
  assumes "header m = be64 nodeID @ be64 ringID @ be32 p @ be64 cutoff @ be64 rangeStart @ be64 rangeStop @ r"
  shows "prm_nodeID m = Inr nodeID" and "prm_ringID m = Inr ringID" and "prm_partition m = Inr p"
    and "prm_cutoff m = Inr cutoff" and "prm_rangeStart m = Inr rangeStart"
    and "prm_rangeStop m = Inr rangeStop"
proof -
  show "prm_nodeID m = Inr nodeID"
    using Uint64_append [of "[]" 0 nodeID] by (simp add: prm_nodeID_def assms)
  show "prm_ringID m = Inr ringID"
    using Uint64_append [of "be64 nodeID" 8 ringID] by (simp add: prm_ringID_def assms)
  show "prm_partition m = Inr p"
    using Uint32_append [of "be64 nodeID @ be64 ringID" 16 p] by (simp add: prm_partition_def assms)
  show "prm_cutoff m = Inr cutoff"
    using Uint64_append [of "be64 nodeID @ be64 ringID @ be32 p" 20 cutoff]
    by (simp add: prm_cutoff_def assms)
  show "prm_rangeStart m = Inr rangeStart"
    using Uint64_append [of "be64 nodeID @ be64 ringID @ be32 p @ be64 cutoff" 28 rangeStart]
    by (simp add: prm_rangeStart_def assms)
  show "prm_rangeStop m = Inr rangeStop"
    using Uint64_append [of "be64 nodeID @ be64 ringID @ be32 p @ be64 cutoff @ be64 rangeStart" 36 rangeStop]
    by (simp add: prm_rangeStop_def assms)
qed

text \<open>
  C7. A message built by \<open>newOutPullReplicationMsg\<close> from a pooled message whose header
  has room for the 44 bytes starts with \<open>nodeID\<close>, \<open>ringID\<close>, \<open>partition\<close>, \<open>cutoff\<close>,
  \<open>rangeStart\<close> and \<open>rangeStop\<close> in big-endian order, 8, 8, 4, 8, 8 and 8 bytes wide, 44
  bytes in all, and each accessor returns the argument that was passed in.
\<close>

theorem newOutPullReplicationMsg_roundtrip:
  assumes "pullReplicationMsgHeaderBytes \<le> length (header prm)"
  shows "\<exists>m. newOutPullReplicationMsg toMsg prm nodeID ringID p cutoff rangeStart rangeStop fl = Inr m \<and>
     take pullReplicationMsgHeaderBytes (header m)
       = be64 nodeID @ be64 ringID @ be32 p @ be64 cutoff @ be64 rangeStart @ be64 rangeStop \<and>
     length (be64 nodeID @ be64 ringID @ be32 p @ be64 cutoff @ be64 rangeStart @ be64 rangeStop) = 44 \<and>
     prm_nodeID m = Inr nodeID \<and> prm_ringID m = Inr ringID \<and> prm_partition m = Inr p \<and>
     prm_cutoff m = Inr cutoff \<and> prm_rangeStart m = Inr rangeStart \<and> prm_rangeStop m = Inr rangeStop"
proof -
  from assms have "44 \<le> length (header prm)"
    by (simp add: pullReplicationMsgHeaderBytes_def)
  from newOutPullReplicationMsg_header [OF this, of toMsg nodeID ringID p cutoff rangeStart rangeStop fl]
  obtain m r where m: "newOutPullReplicationMsg toMsg prm nodeID ringID p cutoff rangeStart rangeStop fl = Inr m"
    and h: "header m = be64 nodeID @ be64 ringID @ be32 p @ be64 cutoff @ be64 rangeStart @ be64 rangeStop @ r"
    by blast
  have "take pullReplicationMsgHeaderBytes (header m)
          = be64 nodeID @ be64 ringID @ be32 p @ be64 cutoff @ be64 rangeStart @ be64 rangeStop"
    by (simp add: h pullReplicationMsgHeaderBytes_def)
  with m accessors_of_header [OF h] show ?thesis
    by simp
qed

theorem newOutPullReplicationMsg_roundtrip_witness:
  "pullReplicationMsgHeaderBytes \<le> length (header \<lparr>header = replicate 64 0, body = []\<rparr>) \<and>
   (\<exists>m. newOutPullReplicationMsg (\<lambda>fl. (replicate 20 0, [])) \<lparr>header = replicate 64 0, body = []\<rparr>
           7 9 3 768 16 31 (newKTBloomFilter 1) = Inr m \<and>
         prm_partition m = Inr 3 \<and> prm_cutoff m = Inr 768 \<and> prm_rangeStart m = Inr 16 \<and>
         prm_rangeStop m = Inr 31)"
proof -
  have h: "pullReplicationMsgHeaderBytes \<le> length (header \<lparr>header = replicate 64 0, body = []\<rparr>)"
    by (simp add: pullReplicationMsgHeaderBytes_def)
  from newOutPullReplicationMsg_roundtrip [OF h, of "\<lambda>fl. (replicate 20 0, [])" 7 9 3 768 16 31
      "newKTBloomFilter 1"]
  obtain m where "newOutPullReplicationMsg (\<lambda>fl. (replicate 20 0, [])) \<lparr>header = replicate 64 0, body = []\<rparr>
           7 9 3 768 16 31 (newKTBloomFilter 1) = Inr m"
    and "prm_partition m = Inr 3" and "prm_cutoff m = Inr 768" and "prm_rangeStart m = Inr 16"
    and "prm_rangeStop m = Inr 31"
    by blast
  with h show ?thesis
    by blast
qed

section \<open>Facts about the outgoing pull replication pass\<close>

lemma nextIteration_outIteration: "outIteration (nextIteration vs) = outIteration vs + 1"
  by (simp add: nextIteration_def MaxUint16_def)

lemma nextIteration_unat:
  "unat (outIteration (nextIteration vs)) =
     (if unat (outIteration vs) < 65535 then unat (outIteration vs) + 1 else 0)"
proof (cases "outIteration vs = MaxUint16")
  case True
  then show ?thesis by (simp add: nextIteration_def MaxUint16_def)
next
  case False
  then have "unat (outIteration vs) \<noteq> unat (65535 :: uint16)"
    unfolding MaxUint16_def by (simp only: word_unat_eq_iff [symmetric] not_False_eq_True)
  moreover have "unat (outIteration vs) < 65536"
    using unsigned_less [of "outIteration vs", where ?'a = nat] by simp
  ultimately have lt: "unat (outIteration vs) < 65535" by simp
  then have "unat (outIteration vs + 1) = unat (outIteration vs) + 1"
    by (simp add: unat_word_ariths)
  with False lt show ?thesis by (simp add: nextIteration_def)
qed

lemma growKTBFs_outIteration [simp]: "outIteration (growKTBFs vs) = outIteration vs"
  by (simp add: growKTBFs_def)

lemma sendBody_resets:
  assumes "resetsUse (outIteration (job_vs j)) st"
  shows "case sendBody j p cutoff tc pullSize stop substart substop st of
           Break (Inl e) \<Rightarrow> True
         | Break (Inr st') \<Rightarrow> resetsUse (outIteration (job_vs j)) st'
         | Next (a, b, st') \<Rightarrow> resetsUse (outIteration (job_vs j)) st'"
  using assms
  by (auto simp: sendBody_def loadAbort_def Let_def resetsUse_def split: prod.splits sum.splits)

lemma sendLoop_resets:
  assumes "sendLoop j p cutoff tc pullSize stop substart substop st = Some (Inr st')"
    and "resetsUse (outIteration (job_vs j)) st"
  shows "resetsUse (outIteration (job_vs j)) st'"
proof -
  have "resetsUse (outIteration (job_vs j)) st \<longrightarrow>
        (\<forall>st'. r = Inr st' \<longrightarrow> resetsUse (outIteration (job_vs j)) st')"
    if "sendLoop j p cutoff tc pullSize stop substart substop st = Some r" for r
    using that
  proof (rule sendLoop.raw_induct [where P = "\<lambda>j p cutoff tc pullSize stop substart substop st r.
       resetsUse (outIteration (job_vs j)) st \<longrightarrow>
       (\<forall>st'. r = Inr st' \<longrightarrow> resetsUse (outIteration (job_vs j)) st')", rotated])
    fix loop j p cutoff tc pullSize stop substart substop st r
    assume IH: "\<And>j p cutoff tc pullSize stop substart substop st r.
         loop j p cutoff tc pullSize stop substart substop st = Some r \<Longrightarrow>
         resetsUse (outIteration (job_vs j)) st \<longrightarrow>
         (\<forall>st'. r = Inr st' \<longrightarrow> resetsUse (outIteration (job_vs j)) st')"
      and body: "(case sendBody j p cutoff tc pullSize stop substart substop st of
          Break r \<Rightarrow> Some r
        | Next (substart, substop, st) \<Rightarrow> loop j p cutoff tc pullSize stop substart substop st) = Some r"
    show "resetsUse (outIteration (job_vs j)) st \<longrightarrow>
         (\<forall>st'. r = Inr st' \<longrightarrow> resetsUse (outIteration (job_vs j)) st')"
    proof (intro impI allI)
      fix st'
      assume inv: "resetsUse (outIteration (job_vs j)) st" and r: "r = Inr st'"
      note sb = sendBody_resets [OF inv, of p cutoff tc pullSize stop substart substop]
      show "resetsUse (outIteration (job_vs j)) st'"
      proof (cases "sendBody j p cutoff tc pullSize stop substart substop st")
        case (Break r')
        with body r sb show ?thesis by simp
      next
        case (Next x)
        obtain a b st2 where x: "x = (a, b, st2)" by (cases x)
        from body Next x have "loop j p cutoff tc pullSize stop a b st2 = Some r" by simp
        moreover from sb Next x have "resetsUse (outIteration (job_vs j)) st2" by simp
        ultimately show ?thesis using IH r by blast
      qed
    qed
  qed
  with assms show ?thesis by blast
qed

lemma f_resets:
  assumes "f j partitionPower p st = Some (Inr st')"
    and "resetsUse (outIteration (job_vs j)) st"
  shows "resetsUse (outIteration (job_vs j)) st'"
proof -
  from assms(1) obtain pullSize cutoff tc stop substart substop where
    "sendLoop j p cutoff tc pullSize stop substart substop (snd (loadNow (job_world j) st)) = Some (Inr st')"
    by (auto simp: f_def Let_def split: option.splits prod.splits)
  moreover have "resetsUse (outIteration (job_vs j)) (snd (loadNow (job_world j) st))"
    using assms(2) by (simp add: resetsUse_def loadNow_def)
  ultimately show ?thesis by (rule sendLoop_resets)
qed

lemma partitionBody_resets:
  assumes "resetsUse s st"
  shows "case partitionBody j bound p st of Break st' \<Rightarrow> resetsUse s st' | Next (b, st') \<Rightarrow> resetsUse s st'"
  using assms
  by (auto simp: partitionBody_def loadAbort_def loadRingID_def resetsUse_def split: prod.splits)

lemma partitionLoop_resets:
  assumes "partitionLoop j partitionPower step bound p st = Some (Inr st')"
    and "resetsUse (outIteration (job_vs j)) st"
  shows "resetsUse (outIteration (job_vs j)) st'"
proof -
  have "resetsUse (outIteration (job_vs j)) st \<longrightarrow>
        (\<forall>st'. r = Inr st' \<longrightarrow> resetsUse (outIteration (job_vs j)) st')"
    if "partitionLoop j partitionPower step bound p st = Some r" for r
    using that
  proof (rule partitionLoop.raw_induct [where P = "\<lambda>j partitionPower step bound p st r.
       resetsUse (outIteration (job_vs j)) st \<longrightarrow>
       (\<forall>st'. r = Inr st' \<longrightarrow> resetsUse (outIteration (job_vs j)) st')", rotated])
    fix loop j partitionPower step bound p st r
    assume IH: "\<And>j partitionPower step bound p st r.
         loop j partitionPower step bound p st = Some r \<Longrightarrow>
         resetsUse (outIteration (job_vs j)) st \<longrightarrow>
         (\<forall>st'. r = Inr st' \<longrightarrow> resetsUse (outIteration (job_vs j)) st')"
      and body: "(case partitionBody j bound p st of
          Break st \<Rightarrow> Some (Inr st)
        | Next (responsible, st) \<Rightarrow>
            (case (if responsible then f j partitionPower p st else Some (Inr st)) of
               None \<Rightarrow> None
             | Some (Inl e) \<Rightarrow> Some (Inl e)
             | Some (Inr st) \<Rightarrow> loop j partitionPower step bound (p + step) st)) = Some r"
    show "resetsUse (outIteration (job_vs j)) st \<longrightarrow>
         (\<forall>st'. r = Inr st' \<longrightarrow> resetsUse (outIteration (job_vs j)) st')"
    proof (intro impI allI)
      fix st'
      assume inv: "resetsUse (outIteration (job_vs j)) st" and r: "r = Inr st'"
      note pb = partitionBody_resets [OF inv, of j bound p]
      show "resetsUse (outIteration (job_vs j)) st'"
      proof (cases "partitionBody j bound p st")
        case (Break st1)
        with body r pb show ?thesis by simp
      next
        case (Next x)
        obtain b st1 where x: "x = (b, st1)" by (cases x)
        from pb Next x have inv1: "resetsUse (outIteration (job_vs j)) st1" by simp
        from body Next x r obtain st2 where
          st2: "(if b then f j partitionPower p st1 else Some (Inr st1)) = Some (Inr st2)"
          and l: "loop j partitionPower step bound (p + step) st2 = Some r"
          by (auto split: option.splits sum.splits)
        have "resetsUse (outIteration (job_vs j)) st2"
        proof (cases b)
          case True
          with st2 have "f j partitionPower p st1 = Some (Inr st2)" by simp
          then show ?thesis using inv1 by (rule f_resets)
        next
          case False
          with st2 inv1 show ?thesis by simp
        qed
        with l IH r show ?thesis by blast
      qed
    qed
  qed
  with assms show ?thesis by blast
qed

lemma pullWorker_resets:
  assumes "pullWorker j partitionPower partitions sp g = Some (Inr st')"
  shows "resetsUse (outIteration (job_vs j)) st'"
proof -
  let ?st0 = "\<lparr> tick = 0, ktbf = outKTBFs (job_vs j) ! g, trace = [] \<rparr>"
  from assms obtain st1 where
    1: "partitionLoop j partitionPower (of_nat (outWorkers (job_vs j))) partitions (sp + of_nat g) ?st0 = Some (Inr st1)"
    and 2: "partitionLoop j partitionPower (of_nat (outWorkers (job_vs j))) sp (of_nat g) st1 = Some (Inr st')"
    by (auto simp: pullWorker_def Let_def split: option.splits sum.splits)
  have "resetsUse (outIteration (job_vs j)) ?st0"
    by (simp add: resetsUse_def)
  with 1 have "resetsUse (outIteration (job_vs j)) st1"
    by (rule partitionLoop_resets)
  with 2 show ?thesis
    by (rule partitionLoop_resets)
qed

lemma joinWorkers_all:
  assumes "joinWorkers rs = Some (Inr sts)"
    and "\<And>st. Some (Inr st) \<in> set rs \<Longrightarrow> Q st"
  shows "\<forall>st \<in> set sts. Q st"
  using assms
proof (induction rs arbitrary: sts)
  case Nil
  then show ?case by simp
next
  case (Cons r rs)
  from Cons.prems(1) obtain st sts' where r: "r = Some (Inr st)"
    and j: "joinWorkers rs = Some (Inr sts')" and sts: "sts = st # sts'"
    by (auto split: option.splits sum.splits)
  from Cons.IH [OF j] Cons.prems(2) have "\<forall>st \<in> set sts'. Q st" by simp
  moreover from Cons.prems(2) r have "Q st" by simp
  ultimately show ?case using sts by simp
qed

lemma outPullReplicationPass_store:
  assumes "ring vs = Some r"
  shows "outIteration (fst (outPullReplicationPass worlds toMsg freeMsg rnd vs)) = outIteration vs + 1"
  using assms by (simp add: outPullReplicationPass_def Let_def nextIteration_outIteration)

lemma outPullReplicationPass_resets:
  assumes "ring vs = Some r"
    and "snd (outPullReplicationPass worlds toMsg freeMsg rnd vs) = Some (Inr sts)"
  shows "\<forall>st \<in> set sts. resetsUse (outIteration vs + 1) st"
proof -
  let ?vs = "growKTBFs (nextIteration vs)"
  let ?job = "\<lambda>g. \<lparr> job_world = worlds g, job_toMsg = toMsg, job_freeMsg = freeMsg,
                    job_vs = ?vs, job_ring = r, job_ringID = ID r \<rparr>"
  let ?partitions = "push_bit (PartitionPower r) (1 :: uint32)"
  let ?sp = "of_nat (rnd mod unat ?partitions) :: uint32"
  from assms have j: "joinWorkers (map (\<lambda>g. pullWorker (?job g) (PartitionPower r) ?partitions ?sp g)
                      [0..<outWorkers ?vs]) = Some (Inr sts)"
    by (simp add: outPullReplicationPass_def Let_def split: if_splits)
  show ?thesis
  proof (rule joinWorkers_all [OF j])
    fix st
    assume "Some (Inr st) \<in> set (map (\<lambda>g. pullWorker (?job g) (PartitionPower r) ?partitions ?sp g)
                      [0..<outWorkers ?vs])"
    then obtain g where "pullWorker (?job g) (PartitionPower r) ?partitions ?sp g = Some (Inr st)"
      by auto
    from pullWorker_resets [OF this] show "resetsUse (outIteration vs + 1) st"
      by (simp add: nextIteration_outIteration)
  qed
qed

text \<open>
  C8, as the code has it. On a store that has a ring, a pass moves the salt on by one
  modulo \<open>2^16\<close> (from \<open>v < 65535\<close> to \<open>v + 1\<close>, from \<open>65535\<close> to \<open>0\<close>) before
  any worker starts, and every reset of a bloom filter that a worker of the pass makes
  uses the new salt.
\<close>

theorem outPullReplicationPass_salt:
  "ring vs \<noteq> None \<longrightarrow>
     outIteration (fst (outPullReplicationPass worlds toMsg freeMsg rnd vs)) = outIteration vs + 1 \<and>
     unat (outIteration (fst (outPullReplicationPass worlds toMsg freeMsg rnd vs)))
       = (if unat (outIteration vs) < 65535 then unat (outIteration vs) + 1 else 0) \<and>
     (\<forall>sts. snd (outPullReplicationPass worlds toMsg freeMsg rnd vs) = Some (Inr sts) \<longrightarrow>
        (\<forall>st \<in> set sts. \<forall>s. Reset s \<in> set (trace st) \<longrightarrow>
           s = outIteration (fst (outPullReplicationPass worlds toMsg freeMsg rnd vs))))"
proof (intro impI conjI allI ballI)
  assume "ring vs \<noteq> None"
  then obtain r where r: "ring vs = Some r"
    by blast
  show eq: "outIteration (fst (outPullReplicationPass worlds toMsg freeMsg rnd vs)) = outIteration vs + 1"
    by (rule outPullReplicationPass_store [OF r])
  from r show "unat (outIteration (fst (outPullReplicationPass worlds toMsg freeMsg rnd vs)))
       = (if unat (outIteration vs) < 65535 then unat (outIteration vs) + 1 else 0)"
    using nextIteration_unat [of vs] by (simp add: outPullReplicationPass_def Let_def)
  fix sts st s
  assume "snd (outPullReplicationPass worlds toMsg freeMsg rnd vs) = Some (Inr sts)"
    and "st \<in> set sts" and "Reset s \<in> set (trace st)"
  with outPullReplicationPass_resets [OF r, of worlds toMsg freeMsg rnd sts]
  show "s = outIteration (fst (outPullReplicationPass worlds toMsg freeMsg rnd vs))"
    by (simp add: eq resetsUse_def)
qed

lemma smallStore_pass:
  "snd (outPullReplicationPass (\<lambda>g. quietWorld) noFilterBytes pooledMsg 0 smallStore) =
     Some (Inr [\<lparr> tick = 7, ktbf = \<lparr>salt = 0, members = []\<rparr>,
                  trace = [Reset 0,
                           MsgToOtherReplicas 7 0
                             \<lparr>header = be64 1 @ be64 7 @ be32 0 @ be64 256000 @ be64 0 @
                                         be64 9223372036854775807,
                               body = []\<rparr>] \<rparr>])"
  by (simp add: outPullReplicationPass_def quietWorld_def smallRing_def smallStore_def noFilterBytes_def
      pooledMsg_def Let_def nextIteration_def growKTBFs_def MaxUint16_def pullWorker_def
      partitionLoop.simps partitionBody_def loadAbort_def loadRingID_def loadNow_def f_def
      halve.simps ScanCount_def GLH_BLOOM_FILTER_N_def sendLoop.simps sendBody_def ScanCallback_def
      newKTBloomFilter_def ktbf_reset_def timestampbitsOf_def TSB_UTIL_BITS_def
      newOutPullReplicationMsg_def PutUint64_def PutUint32_def be64_def be32_def ktbf_toMsg_def
      pullReplicationMsgHeaderBytes_def)

theorem outPullReplicationPass_salt_witness:
  "ring smallStore \<noteq> None \<and>
   outIteration smallStore = 65535 \<and>
   outIteration (fst (outPullReplicationPass (\<lambda>g. quietWorld) noFilterBytes pooledMsg 0 smallStore)) = 0 \<and>
   (\<exists>sts. snd (outPullReplicationPass (\<lambda>g. quietWorld) noFilterBytes pooledMsg 0 smallStore) = Some (Inr sts) \<and>
      (\<exists>st \<in> set sts. \<exists>s. Reset s \<in> set (trace st) \<and>
         s = outIteration (fst (outPullReplicationPass (\<lambda>g. quietWorld) noFilterBytes pooledMsg 0 smallStore))))"
proof -
  have r: "ring smallStore \<noteq> None" and v: "outIteration smallStore = 65535"
    by (simp_all add: smallStore_def)
  note t = outPullReplicationPass_salt [of smallStore "\<lambda>g. quietWorld" noFilterBytes pooledMsg 0]
  from t r v have s: "outIteration (fst (outPullReplicationPass (\<lambda>g. quietWorld) noFilterBytes pooledMsg 0 smallStore)) = 0"
    by simp
  show ?thesis
    using r v s smallStore_pass by simp
qed

text \<open>
  C8 as the claim states it fails on a store without a ring: the pass returns before it
  touches the salt.
\<close>

theorem outPullReplicationPass_salt_counterexample:
  "outIteration (fst (outPullReplicationPass (\<lambda>g. quietWorld) noFilterBytes pooledMsg 0
       (smallStore\<lparr>ring := None, outIteration := 5\<rparr>)))
     \<noteq> outIteration (smallStore\<lparr>ring := None, outIteration := 5\<rparr>) + 1"
  by (simp add: outPullReplicationPass_def)

section \<open>The sub-ranges of a crowded partition\<close>

lemma length_crowdedVLM: "length crowdedVLM = 1000000"
  by (simp add: crowdedVLM_def del: upt_rec_numeral)

lemma filter_const: "filter (\<lambda>x. c) xs = (if c then xs else [])"
  by (induction xs) auto

lemma filter_crowdedVLM:
  "filter (inRange start stop) crowdedVLM =
     (if start \<le> 2305843009213693952 \<and> 2305843009213693952 \<le> stop then crowdedVLM else [])"
proof -
  have "inRange start stop (crowdedEntry i) \<longleftrightarrow> start \<le> 2305843009213693952 \<and> 2305843009213693952 \<le> stop" for i
    by (simp add: inRange_def crowdedEntry_def)
  then have "filter (inRange start stop) crowdedVLM
      = map crowdedEntry (filter (\<lambda>i. start \<le> 2305843009213693952 \<and> 2305843009213693952 \<le> stop) [0..<1000000])"
    unfolding crowdedVLM_def filter_map o_def by simp
  then show ?thesis
    unfolding filter_const crowdedVLM_def by simp
qed

lemma ScanCount_crowdedVLM:
  "ScanCount crowdedVLM start stop 1000000 =
     (if start \<le> 2305843009213693952 \<and> 2305843009213693952 \<le> stop then 1000000 else 0)"
  unfolding ScanCount_def filter_crowdedVLM
  by (simp add: length_crowdedVLM)

lemma halve_crowded:
  "halve crowdedVLM 0 9223372036854775808 = Some 2305843009213693952"
proof -
  have "halve crowdedVLM 0 9223372036854775808 = halve crowdedVLM 0 4611686018427387904"
    by (subst halve.simps) (simp add: ScanCount_crowdedVLM GLH_BLOOM_FILTER_N_def)
  also have "\<dots> = halve crowdedVLM 0 2305843009213693952"
    by (subst halve.simps) (simp add: ScanCount_crowdedVLM GLH_BLOOM_FILTER_N_def)
  also have "\<dots> = Some 2305843009213693952"
    by (subst halve.simps) (simp add: ScanCount_crowdedVLM GLH_BLOOM_FILTER_N_def)
  finally show ?thesis .
qed

lemma ScanCallback_crowded_first:
  "ScanCallback crowdedVLM 0 2305843009213693951 cb s = s"
  unfolding ScanCallback_def filter_crowdedVLM by simp

text \<open>
  C2 at a crowded partition. The ring has two partitions; partition 0 covers the \<open>keyA\<close>
  values from \<open>0\<close> to \<open>2^63 - 1\<close> and holds the million entries of \<open>crowdedVLM\<close> at
  \<open>keyA = 2^61\<close>. Nobody aborts and the ring does not change. The sub-range size is
  halved twice, to \<open>2^61\<close>; the pass then sends the message for the first sub-range, from
  \<open>0\<close> to \<open>2^61 - 1\<close>, and leaves the loop, because the next \<open>substop\<close>, \<open>2^62 - 1\<close>,
  is below \<open>stop\<close>. The other three quarters of the partition are never sent.
\<close>

theorem f_crowded_partition:
  "push_bit (64 - 1) (ucast (0 :: uint32) :: uint64) + (push_bit (64 - 1) 1 - 1) = 9223372036854775807 \<and>
   halve crowdedVLM 0 (push_bit (64 - 1) 1) = Some 2305843009213693952 \<and>
   f \<lparr> job_world = quietWorld, job_toMsg = noFilterBytes, job_freeMsg = pooledMsg,
        job_vs = smallStore\<lparr>vlm := crowdedVLM\<rparr>, job_ring = smallRing, job_ringID = 7 \<rparr> 1 0
      \<lparr> tick = 0, ktbf = newKTBloomFilter 0, trace = [] \<rparr> =
     Some (Inr \<lparr> tick = 3, ktbf = \<lparr>salt = 65535, members = []\<rparr>,
                  trace = [Reset 65535,
                           MsgToOtherReplicas 7 0
                             \<lparr>header = be64 1 @ be64 7 @ be32 0 @ be64 256000 @ be64 0 @
                                         be64 2305843009213693951,
                               body = []\<rparr>] \<rparr>)"
proof (intro conjI)
  show "push_bit (64 - 1) (ucast (0 :: uint32) :: uint64) + (push_bit (64 - 1) 1 - 1) = 9223372036854775807"
    by simp
  show "halve crowdedVLM 0 (push_bit (64 - 1) 1) = Some 2305843009213693952"
    using halve_crowded by simp
  show "f \<lparr> job_world = quietWorld, job_toMsg = noFilterBytes, job_freeMsg = pooledMsg,
        job_vs = smallStore\<lparr>vlm := crowdedVLM\<rparr>, job_ring = smallRing, job_ringID = 7 \<rparr> 1 0
      \<lparr> tick = 0, ktbf = newKTBloomFilter 0, trace = [] \<rparr> =
     Some (Inr \<lparr> tick = 3, ktbf = \<lparr>salt = 65535, members = []\<rparr>,
                  trace = [Reset 65535,
                           MsgToOtherReplicas 7 0
                             \<lparr>header = be64 1 @ be64 7 @ be32 0 @ be64 256000 @ be64 0 @
                                         be64 2305843009213693951,
                               body = []\<rparr>] \<rparr>)"
    by (simp add: f_def halve_crowded Let_def loadNow_def quietWorld_def smallStore_def smallRing_def
        noFilterBytes_def pooledMsg_def timestampbitsOf_def TSB_UTIL_BITS_def
        sendLoop.simps sendBody_def loadAbort_def ScanCallback_crowded_first
        newKTBloomFilter_def ktbf_reset_def
        newOutPullReplicationMsg_def PutUint64_def PutUint32_def be64_def be32_def ktbf_toMsg_def
        pullReplicationMsgHeaderBytes_def)
qed

section \<open>Facts about the replication scans\<close>






lemma entryKeys_simps [simp]:
  "entryKeys [] = []"
  "entryKeys (e # es) = keyA e # keyB e # entryKeys es"
  by (simp_all add: entryKeys_def)


lemma scanUntil_pushCallback:
  "fst (scanUntil (pushCallback tc) es (list, available)) =
     list @ entryKeys (untilFull available
              (filter (\<lambda>e. timestampbits e AND TSB_DELETION = 0 \<or> timestampbits e \<ge> tc) es))"
  by (induction es arbitrary: list available)
    (simp_all add: pushCallback_def entryBytes_def BULK_SET_MSG_ENTRY_HEADER_LENGTH_def Let_def)

lemma scanMatch_push:
  "scanMatch rb re 0 TSB_LOCAL_REMOVAL cutoff MaxUint64 e \<and>
     (timestampbits e AND TSB_DELETION = 0 \<or> timestampbits e \<ge> tc)
   \<longleftrightarrow> inRange rb re e \<and> replicable (timestampbits e) cutoff tc"
proof -
  have "timestampbits e \<le> MaxUint64"
    by (simp add: MaxUint64_def word_le_nat_alt) (use unsigned_less [of "timestampbits e", where ?'a = nat] in simp)
  then show ?thesis
    by (auto simp: scanMatch_def replicable_def)
qed

lemma workScan_eq:
  "workScan vs rb re cutoff tc =
     entryKeys (untilFull (int (msgCap vs))
        (filter (\<lambda>e. inRange rb re e \<and> replicable (timestampbits e) cutoff tc) (vlm vs)))"
proof -
  have "filter (\<lambda>e. timestampbits e AND TSB_DELETION = 0 \<or> timestampbits e \<ge> tc)
          (filter (scanMatch rb re 0 TSB_LOCAL_REMOVAL cutoff MaxUint64) (vlm vs))
        = filter (\<lambda>e. inRange rb re e \<and> replicable (timestampbits e) cutoff tc) (vlm vs)"
    using scanMatch_push [of rb re cutoff _ tc] by (simp add: conj_commute cong: filter_cong)
  then show ?thesis
    by (simp add: workScan_def ScanCallbackMasked_def scanUntil_pushCallback)
qed







section \<open>Facts about the outgoing push replication pass\<close>

lemma keyPairs_entryKeys: "keyPairs (entryKeys es) = map (\<lambda>e. (keyA e, keyB e)) es"
  by (induction es) simp_all

lemma set_untilFull: "set (untilFull available es) \<subseteq> set es"
  by (induction es arbitrary: available) auto

lemma workScan_keys:
  assumes "(a, b) \<in> set (keyPairs (workScan vs rb re cutoff tc))"
  shows "\<exists>e \<in> set (vlm vs). keyA e = a \<and> keyB e = b \<and> timestampbits e AND TSB_LOCAL_REMOVAL = 0"
proof -
  let ?sel = "untilFull (int (msgCap vs))
        (filter (\<lambda>e. inRange rb re e \<and> replicable (timestampbits e) cutoff tc) (vlm vs))"
  from assms obtain e where e: "e \<in> set ?sel" and k: "keyA e = a" "keyB e = b"
    by (auto simp: workScan_eq keyPairs_entryKeys)
  from e set_untilFull [of "int (msgCap vs)"
      "filter (\<lambda>e. inRange rb re e \<and> replicable (timestampbits e) cutoff tc) (vlm vs)"]
  have "e \<in> set (filter (\<lambda>e. inRange rb re e \<and> replicable (timestampbits e) cutoff tc) (vlm vs))"
    by blast
  then have "e \<in> set (vlm vs)" and "replicable (timestampbits e) cutoff tc"
    by simp_all
  with k show ?thesis
    by (auto simp: replicable_def)
qed

lemma pushFillStep_body:
  assumes "pushFillStep read cutoff tc a b bsm = (continue, bsm')"
  shows "bsm_body bsm' = bsm_body bsm \<or>
     (\<exists>t v. bsm_body bsm' = bsm_body bsm @ [(a, b, t, v)] \<and> t AND TSB_LOCAL_REMOVAL = 0)"
  using assms by (auto simp: pushFillStep_def bsm_add_def split: prod.splits if_splits)

lemma pushFill_body:
  "x \<in> set (bsm_body (pushFill read cutoff tc list bsm)) \<Longrightarrow>
   x \<in> set (bsm_body bsm) \<or>
    (\<exists>a b t v. x = (a, b, t, v) \<and> (a, b) \<in> set (keyPairs list) \<and> t AND TSB_LOCAL_REMOVAL = 0)"
proof (induction read cutoff tc list bsm rule: pushFill.induct)
  case (1 read cutoff tc a b list bsm)
  obtain continue bsm' where st: "pushFillStep read cutoff tc a b bsm = (continue, bsm')"
    by (cases "pushFillStep read cutoff tc a b bsm") auto
  note b = pushFillStep_body [OF st]
  show ?case
  proof (cases continue)
    case True
    with "1.prems" st have "x \<in> set (bsm_body (pushFill read cutoff tc list bsm'))" by simp
    with "1.IH" [OF st [symmetric] True] have "x \<in> set (bsm_body bsm') \<or>
      (\<exists>a b t v. x = (a, b, t, v) \<and> (a, b) \<in> set (keyPairs list) \<and> t AND TSB_LOCAL_REMOVAL = 0)"
      by simp
    with b show ?thesis by auto
  next
    case False
    with "1.prems" st have "x \<in> set (bsm_body bsm')" by simp
    with b show ?thesis by auto
  qed
qed simp_all

lemma work_message_clean:
  assumes "x \<in> set (bsm_body (pushFill read cutoff tc (workScan vs rb re cutoff tc)
                                 (newOutBulkSetMsg (msgCap vs))))"
  shows "cleanEntry vs x"
proof -
  from pushFill_body [OF assms] obtain a b t v where x: "x = (a, b, t, v)"
    and k: "(a, b) \<in> set (keyPairs (workScan vs rb re cutoff tc))" and t: "t AND TSB_LOCAL_REMOVAL = 0"
    by (auto simp: newOutBulkSetMsg_def)
  from workScan_keys [OF k] x t show ?thesis
    by (simp add: cleanEntry_def)
qed

lemma work_worked:
  "worked (work w read vs rv pbc p worker st) = worked st @ [(p, worker)]"
  by (simp add: work_def Let_def pLoadNow_def pLoadAbort_def pLoadRingVersion_def split: prod.splits)

lemma work_sent:
  "sent (work w read vs rv pbc p worker st) = sent st \<or>
   (\<exists>rb re cutoff tc. sent (work w read vs rv pbc p worker st) =
      sent st @ [(pushFill read cutoff tc (workScan vs rb re cutoff tc) (newOutBulkSetMsg (msgCap vs)), ucast p)])"
  by (simp add: work_def Let_def pLoadNow_def pLoadAbort_def pLoadRingVersion_def split: prod.splits)
    blast

lemma work_inv:
  assumes "pushInv r vs st" and "\<not> Responsible r (ucast p)"
  shows "pushInv r vs (work w read vs rv pbc p worker st)"
proof -
  have 1: "\<forall>pw \<in> set (worked (work w read vs rv pbc p worker st)). \<not> Responsible r (ucast (fst pw))"
    using assms by (simp add: work_worked pushInv_def)
  have 2: "\<forall>m \<in> set (sent (work w read vs rv pbc p worker st)). \<forall>x \<in> set (bsm_body (fst m)). cleanEntry vs x"
    using work_sent [of w read vs rv pbc p worker st] assms(1) work_message_clean
    by (auto simp: pushInv_def)
  from 1 2 show ?thesis
    by (simp add: pushInv_def)
qed

lemma pushBody_inv:
  assumes "pushInv r vs st"
  shows "case pushBody w read vs r worker pb p st of Break st' \<Rightarrow> pushInv r vs st'
         | Next (p', st') \<Rightarrow> pushInv r vs st'"
proof -
  have t: "pushInv r vs (st\<lparr>ptick := n\<rparr>)" for n
    using assms by (simp add: pushInv_def)
  have "pushInv r vs (work w read vs rv pbc p worker (st\<lparr>ptick := n\<rparr>))"
    if "\<not> Responsible r (ucast p)" for n rv pbc
    using work_inv [OF t that] .
  with t show ?thesis
    by (simp add: pushBody_def pLoadAbort_def pLoadRingVersion_def Let_def split: prod.splits)
qed

lemma pushLoop_inv:
  assumes "pushLoop w read vs r worker pb p st = Some st'" and "pushInv r vs st"
  shows "pushInv r vs st'"
proof -
  have "pushInv r vs st \<longrightarrow> pushInv r vs st'"
    using assms(1)
  proof (rule pushLoop.raw_induct [where P = "\<lambda>w read vs r worker pb p st st'.
        pushInv r vs st \<longrightarrow> pushInv r vs st'", rotated])
    fix loop w read vs r worker pb p st st'
    assume IH: "\<And>w read vs r worker pb p st st'. loop w read vs r worker pb p st = Some st' \<Longrightarrow>
        pushInv r vs st \<longrightarrow> pushInv r vs st'"
      and body: "(case pushBody w read vs r worker pb p st of
          Break st \<Rightarrow> Some st
        | Next (p, st) \<Rightarrow> loop w read vs r worker pb p st) = Some st'"
    show "pushInv r vs st \<longrightarrow> pushInv r vs st'"
    proof
      assume inv: "pushInv r vs st"
      note pb = pushBody_inv [OF inv, of w read worker pb p]
      show "pushInv r vs st'"
      proof (cases "pushBody w read vs r worker pb p st")
        case (Break st1)
        with body pb show ?thesis by simp
      next
        case (Next x)
        obtain p1 st1 where x: "x = (p1, st1)" by (cases x)
        from body Next x have "loop w read vs r worker pb p1 st1 = Some st'" by simp
        moreover from pb Next x have "pushInv r vs st1" by simp
        ultimately show ?thesis using IH by blast
      qed
    qed
  qed
  with assms(2) show ?thesis by blast
qed

lemma pushWorker_inv:
  assumes "pushWorker w read vs r worker = Some st"
  shows "pushInv r vs st"
proof -
  have "pushInv r vs \<lparr> ptick = 0, worked = [], sent = [] \<rparr>"
    by (simp add: pushInv_def)
  with assms show ?thesis
    unfolding pushWorker_def Let_def by (rule pushLoop_inv)
qed

end
